theory Spec2Isabelle
  imports Main "HOL-Library.Word" "HOL-Library.Multiset" "HOL-Library.Sublist"
begin

section \<open>The StorageClass checker of the virtualcluster syncer\<close>

text \<open>
  A shallow embedding of \<^verbatim>\<open>virtualcluster/pkg/syncer/resources/storageclass/checker.go\<close>.

  The checker talks to collaborators that live outside the file: the cluster registry
  and the tenant informer caches (\<^verbatim>\<open>MultiClusterController\<close>), the tenant API servers
  (the per-cluster clientset), the super master informer cache
  (\<^verbatim>\<open>storageclassLister\<close>), the upward work queue, the metrics vectors and the log.
  What a collaborator answers is an input of the model; what the checker asks a
  collaborator to do is an effect. A function of the checker computes the sequence of
  effects it performs, in program order; \<open>exec\<close> applies one effect to the world.
  The goroutines of one pass are the effect sequences of the scanners, and a schedule of
  the pass is one interleaving of them. No effect changes what a collaborator answers, so
  within a pass the answers are the same whenever the checker asks.
\<close>

subsection \<open>Objects, errors, log lines\<close>

text \<open>\<^verbatim>\<open>errors.IsNotFound\<close> only separates the not-found status from every other error.\<close>

datatype error = StatusNotFound | OtherError string

fun IsNotFound :: "error option \<Rightarrow> bool" where
  "IsNotFound None = False"
| "IsNotFound (Some StatusNotFound) = True"
| "IsNotFound (Some (OtherError m)) = False"

text \<open>\<^verbatim>\<open>metav1.DeletionPropagation\<close>.\<close>

datatype DeletionPropagation =
  DeletePropagationOrphan | DeletePropagationBackground | DeletePropagationForeground

text \<open>The fields of \<^verbatim>\<open>v1.StorageClass\<close> the checker and its helpers look at.\<close>

record StorageClass =
  Name :: string
  Labels :: "(string \<times> string) list"
  Provisioner :: string
  Parameters :: "(string \<times> string) list"

text \<open>A klog call: the format string and its arguments, by severity.\<close>

datatype arg = Str string | Err error

datatype logline =
    Infof string "arg list"
  | V_Infof nat string "arg list"
  | Warningf string "arg list"
  | Errorf string "arg list"

subsection \<open>What the package uses from elsewhere\<close>

text \<open>
  \<^verbatim>\<open>publicStorageClass\<close> (same package, another file),
  \<^verbatim>\<open>conversion.Equality(nil, nil).CheckStorageClassEquality\<close> (nil when there is no
  difference, the updated object otherwise) and \<^verbatim>\<open>constants.DefaultDeletionPolicy\<close>
  are not part of \<^verbatim>\<open>checker.go\<close>: they are parameters.
\<close>

record deps =
  publicStorageClass :: "StorageClass \<Rightarrow> bool"
  CheckStorageClassEquality :: "StorageClass \<Rightarrow> StorageClass \<Rightarrow> StorageClass option"
  DefaultDeletionPolicy :: DeletionPropagation

subsection \<open>The world\<close>

text \<open>
  The first group of fields is what the collaborators answer during one pass (the contents
  of the caches, the registry, the answers of the tenant API servers, the outcome of the
  cache-sync gate). The second group is what the checker changes.
  \<^item> \<open>MultiClusterController_Get w cluster name\<close> is the error of
    \<^verbatim>\<open>MultiClusterController.Get(cluster, "", name, &v1.StorageClass{})\<close>, \<open>None\<close> for nil.
  \<^item> \<open>MultiClusterController_GetClusterClient w cluster\<close> is the error of
    \<^verbatim>\<open>GetClusterClient(cluster)\<close>, \<open>None\<close> when a clientset is returned.
  \<^item> \<open>StorageClasses_Delete w cluster name policy\<close> is the error the tenant API server
    of \<open>cluster\<close> answers to the delete call, \<open>None\<close> for nil.
  \<^item> \<open>DeleteCalls\<close> are the delete calls sent to tenant API servers, \<open>Probes\<close> the
    \<^verbatim>\<open>MultiClusterController.Get\<close> calls made, \<open>UpwardQueue\<close> the keys handed to
    \<^verbatim>\<open>UpwardController.AddToQueue\<close>, each in the order of the calls.
  \<^item> \<open>CheckerMissMatchStats\<close> is the gauge vector; the gauge stores
    \<^verbatim>\<open>float64(n)\<close>, the model keeps the \<^verbatim>\<open>uint64\<close> \<open>n\<close> that is converted.
\<close>

record world =
  MultiClusterController_GetClusterNames :: "string list"
  MultiClusterController_List :: "string \<Rightarrow> error + StorageClass list"
  MultiClusterController_Get :: "string \<Rightarrow> string \<Rightarrow> error option"
  MultiClusterController_GetClusterClient :: "string \<Rightarrow> error option"
  StorageClasses_Delete :: "string \<Rightarrow> string \<Rightarrow> DeletionPropagation \<Rightarrow> error option"
  storageclassLister_Get :: "string \<Rightarrow> error + StorageClass"
  storageclassLister_List :: "error + StorageClass list"
  WaitForCacheSync :: bool
  numMissMatchedStorageClasses :: "64 word"
  UpwardQueue :: "string list"
  DeleteCalls :: "(string \<times> string \<times> DeletionPropagation) list"
  Probes :: "(string \<times> string) list"
  CheckerRemedyStats :: "string \<Rightarrow> nat"
  CheckerMissMatchStats :: "string \<Rightarrow> 64 word option"
  klog :: "logline list"
  PatrollerStarts :: nat

subsection \<open>Effects\<close>

datatype effect =
    Klog logline
  | AtomicAddUint64 "64 word"
  | AddToQueue string
  | RemedyStatsInc string
  | Delete string string DeletionPropagation
  | Probe string string

fun exec :: "effect \<Rightarrow> world \<Rightarrow> world" where
  "exec (Klog l) w = w\<lparr>klog := klog w @ [l]\<rparr>"
| "exec (AtomicAddUint64 n) w =
     w\<lparr>numMissMatchedStorageClasses := numMissMatchedStorageClasses w + n\<rparr>"
| "exec (AddToQueue key) w = w\<lparr>UpwardQueue := UpwardQueue w @ [key]\<rparr>"
| "exec (RemedyStatsInc l) w =
     w\<lparr>CheckerRemedyStats := (CheckerRemedyStats w)(l := Suc (CheckerRemedyStats w l))\<rparr>"
| "exec (Delete cluster name policy) w =
     w\<lparr>DeleteCalls := DeleteCalls w @ [(cluster, name, policy)]\<rparr>"
| "exec (Probe cluster name) w = w\<lparr>Probes := Probes w @ [(cluster, name)]\<rparr>"

text \<open>Running a sequence of effects, first to last.\<close>

fun run :: "effect list \<Rightarrow> world \<Rightarrow> world" where
  "run [] w = w"
| "run (e # es) w = run es (exec e w)"

subsection \<open>checkStorageClassOfTenantCluster\<close>

text \<open>The body of the loop over \<^verbatim>\<open>scList.Items\<close>, for one tenant object.\<close>

definition checkItem :: "deps \<Rightarrow> world \<Rightarrow> string \<Rightarrow> StorageClass \<Rightarrow> effect list" where
  "checkItem d w clusterName vStorageClass =
     (case storageclassLister_Get w (Name vStorageClass) of
        Inl err \<Rightarrow>
          if IsNotFound (Some err) then
            (case MultiClusterController_GetClusterClient w clusterName of
               Some err' \<Rightarrow>
                 [Klog (Errorf ''error getting cluster %s clientset: %v''
                          [Str clusterName, Err err'])]
             | None \<Rightarrow>
                 Delete clusterName (Name vStorageClass) (DefaultDeletionPolicy d) #
                 (case StorageClasses_Delete w clusterName (Name vStorageClass)
                         (DefaultDeletionPolicy d) of
                    Some err' \<Rightarrow>
                      [Klog (Errorf ''error deleting storageclass %v in cluster %s: %v''
                               [Str (Name vStorageClass), Str clusterName, Err err'])]
                  | None \<Rightarrow> [RemedyStatsInc ''DeletedOrphanTenantStorageClasses'']))
          else
            [Klog (Errorf ''failed to get pStorageClass %s from super master cache: %v''
                     [Str (Name vStorageClass), Err err])]
      | Inr pStorageClass \<Rightarrow>
          (case CheckStorageClassEquality d pStorageClass vStorageClass of
             None \<Rightarrow> []
           | Some updatedStorageClass \<Rightarrow>
               AtomicAddUint64 1 #
               Klog (Warningf ''spec of storageClass %v diff in super&tenant master''
                       [Str (Name vStorageClass)]) #
               (if publicStorageClass d pStorageClass
                then [AddToQueue (clusterName @ ''/'' @ Name pStorageClass)]
                else [])))"

fun checkItems :: "deps \<Rightarrow> world \<Rightarrow> string \<Rightarrow> StorageClass list \<Rightarrow> effect list" where
  "checkItems d w clusterName [] = []"
| "checkItems d w clusterName (vStorageClass # items) =
     checkItem d w clusterName vStorageClass @ checkItems d w clusterName items"

definition checkStorageClassOfTenantCluster :: "deps \<Rightarrow> world \<Rightarrow> string \<Rightarrow> effect list" where
  "checkStorageClassOfTenantCluster d w clusterName =
     (case MultiClusterController_List w clusterName of
        Inl err \<Rightarrow>
          [Klog (Errorf ''error listing storageclass from cluster %s informer cache: %v''
                   [Str clusterName, Err err])]
      | Inr scList \<Rightarrow>
          Klog (V_Infof 4 ''check storageclass consistency in cluster %s'' [Str clusterName]) #
          checkItems d w clusterName scList)"

subsection \<open>PatrollerDo\<close>

text \<open>The body of the inner loop of the sweep: one public object, one tenant cluster.\<close>

definition probeCluster :: "world \<Rightarrow> StorageClass \<Rightarrow> string \<Rightarrow> effect list" where
  "probeCluster w pStorageClass clusterName =
     Probe clusterName (Name pStorageClass) #
     (case MultiClusterController_Get w clusterName (Name pStorageClass) of
        None \<Rightarrow> []
      | Some err \<Rightarrow>
          (if IsNotFound (Some err)
           then [RemedyStatsInc ''RequeuedSuperMasterStorageClasses'',
                 AddToQueue (clusterName @ ''/'' @ Name pStorageClass)]
           else []) @
          [Klog (Errorf ''fail to get storageclass from cluster %s: %v''
                   [Str clusterName, Err err])])"

definition sweepObject :: "deps \<Rightarrow> world \<Rightarrow> string list \<Rightarrow> StorageClass \<Rightarrow> effect list" where
  "sweepObject d w clusterNames pStorageClass =
     (if \<not> publicStorageClass d pStorageClass then []
      else concat (map (probeCluster w pStorageClass) clusterNames))"

definition sweep :: "deps \<Rightarrow> world \<Rightarrow> string list \<Rightarrow> StorageClass list \<Rightarrow> effect list" where
  "sweep d w clusterNames pStorageClassList =
     concat (map (sweepObject d w clusterNames) pStorageClassList)"

text \<open>
  The goroutines: one effect sequence per cluster name. A schedule of the pass is an
  interleaving of them that keeps the program order of each; \<^verbatim>\<open>wg.Wait()\<close> returns
  when all of them have run to their end.
\<close>

fun interleavings :: "'a list list \<Rightarrow> 'a list set" where
  "interleavings [] = {[]}"
| "interleavings (t # ts) = (\<Union>tr \<in> interleavings ts. shuffles t tr)"

definition goroutines :: "deps \<Rightarrow> world \<Rightarrow> effect list list" where
  "goroutines d w =
     map (checkStorageClassOfTenantCluster d w) (MultiClusterController_GetClusterNames w)"

definition schedules :: "deps \<Rightarrow> world \<Rightarrow> effect list set" where
  "schedules d w = interleavings (goroutines d w)"

text \<open>The schedule in which the goroutines run one after the other, in launch order.\<close>

definition sequential :: "deps \<Rightarrow> world \<Rightarrow> effect list" where
  "sequential d w = concat (goroutines d w)"

text \<open>
  One pass. \<open>sched\<close> is the order in which the steps of the goroutines happened; the
  theorems about a pass hold for every \<open>sched \<in> schedules d w\<close>.
\<close>

definition PatrollerDo :: "deps \<Rightarrow> effect list \<Rightarrow> world \<Rightarrow> world" where
  "PatrollerDo d sched w =
     (let clusterNames = MultiClusterController_GetClusterNames w in
      if length clusterNames = 0 then
        run [Klog (Infof
          ''super cluster has no tenant control planes, giving up periodic checker: %s''
          [Str ''storageclass''])] w
      else
        let w1 = w\<lparr>numMissMatchedStorageClasses := 0\<rparr>;
            w2 = run sched w1
        in case storageclassLister_List w2 of
             Inl err \<Rightarrow>
               run [Klog (Errorf
                 ''error listing storageclass from super master informer cache: %v''
                 [Err err])] w2
           | Inr pStorageClassList \<Rightarrow>
               let w3 = run (sweep d w2 clusterNames pStorageClassList) w2
               in w3\<lparr>CheckerMissMatchStats := (CheckerMissMatchStats w3)
                       (''MissMatchedStorageClasses'' \<mapsto> numMissMatchedStorageClasses w3)\<rparr>)"

subsection \<open>StartPatrol\<close>

text \<open>
  \<open>WaitForCacheSync w\<close> is the result of
  \<^verbatim>\<open>cache.WaitForCacheSync(stopCh, c.storageclassSynced)\<close>: false when the stop signal
  came before the caches were synced. \<open>PatrollerStarts\<close> counts the calls of
  \<^verbatim>\<open>c.Patroller.Start\<close>.
\<close>

definition StartPatrol :: "world \<Rightarrow> error option \<times> world" where
  "StartPatrol w =
     (if \<not> WaitForCacheSync w then
        (Some (OtherError
           ''failed to wait for caches to sync before starting Service checker''), w)
      else (None, w\<lparr>PatrollerStarts := Suc (PatrollerStarts w)\<rparr>))"

subsection \<open>What a sequence of effects adds\<close>

fun added :: "effect list \<Rightarrow> 64 word" where
  "added [] = 0"
| "added (AtomicAddUint64 n # es) = n + added es"
| "added (e # es) = added es"

fun queued :: "effect list \<Rightarrow> string list" where
  "queued [] = []"
| "queued (AddToQueue key # es) = key # queued es"
| "queued (e # es) = queued es"

fun deleted :: "effect list \<Rightarrow> (string \<times> string \<times> DeletionPropagation) list" where
  "deleted [] = []"
| "deleted (Delete c n p # es) = (c, n, p) # deleted es"
| "deleted (e # es) = deleted es"

fun probed :: "effect list \<Rightarrow> (string \<times> string) list" where
  "probed [] = []"
| "probed (Probe c n # es) = (c, n) # probed es"
| "probed (e # es) = probed es"

fun logged :: "effect list \<Rightarrow> logline list" where
  "logged [] = []"
| "logged (Klog l # es) = l # logged es"
| "logged (e # es) = logged es"

definition remedied :: "effect list \<Rightarrow> string \<Rightarrow> nat" where
  "remedied es l = count_list es (RemedyStatsInc l)"

text \<open>Every atomic add of the sequence adds one.\<close>

definition unit_adds :: "effect list \<Rightarrow> bool" where
  "unit_adds es = list_all (\<lambda>e. case e of AtomicAddUint64 n \<Rightarrow> n = 1 | _ \<Rightarrow> True) es"

subsection \<open>Notions used in the statements\<close>

text \<open>
  A listed tenant object is mismatched when the super master cache has an object of its
  name and the equality check reports a difference.
\<close>

definition mismatched :: "deps \<Rightarrow> world \<Rightarrow> StorageClass \<Rightarrow> bool" where
  "mismatched d w v =
     (case storageclassLister_Get w (Name v) of
        Inl err \<Rightarrow> False
      | Inr p \<Rightarrow> CheckStorageClassEquality d p v \<noteq> None)"

text \<open>
  Modelled from the spec: \<^verbatim>\<open>constants.DefaultDeletionPolicy\<close> is not part of
  \<^verbatim>\<open>checker.go\<close>, and the spec calls the default policy cascading (the children are
  deleted before or along with the parent). Of the policies of \<^verbatim>\<open>metav1\<close>, foreground
  and background deletion delete the children; orphaning leaves them.
\<close>

definition cascading :: "DeletionPropagation \<Rightarrow> bool" where
  "cascading policy = (policy \<noteq> DeletePropagationOrphan)"

subsection \<open>A concrete world\<close>

text \<open>
  A public object is labelled \<^verbatim>\<open>tenancy.x-k8s.io/super.public: "true"\<close>; two objects
  are equal when provisioner and parameters agree.
\<close>

definition d0 :: deps where
  "d0 = \<lparr>publicStorageClass =
            (\<lambda>sc. map_of (Labels sc) ''tenancy.x-k8s.io/super.public'' = Some ''true''),
          CheckStorageClassEquality =
            (\<lambda>p v. if Provisioner p = Provisioner v \<and> Parameters p = Parameters v then None
                    else Some (v\<lparr>Provisioner := Provisioner p, Parameters := Parameters p\<rparr>)),
          DefaultDeletionPolicy = DeletePropagationBackground\<rparr>"

definition sc :: "string \<Rightarrow> bool \<Rightarrow> string \<Rightarrow> StorageClass" where
  "sc n pub prov =
     \<lparr>Name = n,
      Labels = (if pub then [(''tenancy.x-k8s.io/super.public'', ''true'')] else []),
      Provisioner = prov, Parameters = []\<rparr>"

text \<open>
  The super master has A, D, E (public) and B (private). Tenant T1 has A (equal), C (no
  counterpart), B and D (different provisioner); tenant T2 has nothing; the list call of
  tenant T3 fails, and so does its probe.
\<close>

definition w0 :: world where
  "w0 = \<lparr>MultiClusterController_GetClusterNames = [''T1'', ''T2'', ''T3''],
          MultiClusterController_List =
            (\<lambda>c. if c = ''T1'' then
                    Inr [sc ''A'' True ''x'', sc ''C'' False ''x'', sc ''B'' False ''y'',
                         sc ''D'' True ''y'']
                  else if c = ''T2'' then Inr []
                  else Inl (OtherError ''cache not ready'')),
          MultiClusterController_Get =
            (\<lambda>c n. if c = ''T1'' then
                      (if n \<in> {''A'', ''B'', ''C'', ''D''} then None else Some StatusNotFound)
                    else if c = ''T2'' then Some StatusNotFound
                    else Some (OtherError ''cache not ready'')),
          MultiClusterController_GetClusterClient = (\<lambda>c. None),
          StorageClasses_Delete = (\<lambda>c n p. None),
          storageclassLister_Get =
            (\<lambda>n. if n = ''A'' then Inr (sc ''A'' True ''x'')
                  else if n = ''B'' then Inr (sc ''B'' False ''x'')
                  else if n = ''D'' then Inr (sc ''D'' True ''x'')
                  else if n = ''E'' then Inr (sc ''E'' True ''x'')
                  else Inl StatusNotFound),
          storageclassLister_List =
            Inr [sc ''A'' True ''x'', sc ''B'' False ''x'', sc ''D'' True ''x'',
                 sc ''E'' True ''x''],
          WaitForCacheSync = True,
          numMissMatchedStorageClasses = 0,
          UpwardQueue = [],
          DeleteCalls = [],
          Probes = [],
          CheckerRemedyStats = (\<lambda>l. 0),
          CheckerMissMatchStats = (\<lambda>l. None),
          klog = [],
          PatrollerStarts = 0\<rparr>"

text \<open>The same world when no clientset can be obtained for any tenant.\<close>

definition w_noclient :: world where
  "w_noclient =
     w0\<lparr>MultiClusterController_GetClusterClient := (\<lambda>c. Some (OtherError ''no client''))\<rparr>"


text \<open>The world left by a first pass over \<open>w0\<close>, after every tenant has been removed.\<close>

definition w_after :: world where
  "w_after =
     (PatrollerDo d0 (sequential d0 w0) w0)\<lparr>MultiClusterController_GetClusterNames := []\<rparr>"

text \<open>The same world when the stop signal comes before the caches are synced.\<close>

definition w_nosync :: world where
  "w_nosync = w0\<lparr>WaitForCacheSync := False\<rparr>"

section \<open>Lemmas\<close>

subsection \<open>Running effect sequences\<close>

lemma run_eq:
  "run es w = w\<lparr>numMissMatchedStorageClasses := numMissMatchedStorageClasses w + added es,
                UpwardQueue := UpwardQueue w @ queued es,
                DeleteCalls := DeleteCalls w @ deleted es,
                Probes := Probes w @ probed es,
                CheckerRemedyStats := (\<lambda>l. CheckerRemedyStats w l + remedied es l),
                klog := klog w @ logged es\<rparr>"
proof (induction es arbitrary: w)
  case Nil
  show ?case by (simp add: remedied_def)
next
  case (Cons e es)
  show ?case
    by (cases e) (simp_all add: Cons.IH remedied_def fun_eq_iff add.assoc)
qed

lemma run_append: "run (es @ fs) w = run fs (run es w)"
  by (induction es arbitrary: w) simp_all

lemma added_append: "added (es @ fs) = added es + added fs"
  by (induction es rule: added.induct) (simp_all add: add.assoc)

lemma queued_append: "queued (es @ fs) = queued es @ queued fs"
  by (induction es rule: queued.induct) simp_all

lemma deleted_append: "deleted (es @ fs) = deleted es @ deleted fs"
  by (induction es rule: deleted.induct) simp_all

lemma probed_append: "probed (es @ fs) = probed es @ probed fs"
  by (induction es rule: probed.induct) simp_all

lemma logged_append: "logged (es @ fs) = logged es @ logged fs"
  by (induction es rule: logged.induct) simp_all


lemma count_queued: "count_list (queued es) k = count_list es (AddToQueue k)"
  by (induction es rule: queued.induct) simp_all

lemma count_deleted: "count_list (deleted es) (c, n, p) = count_list es (Delete c n p)"
  by (induction es rule: deleted.induct) simp_all

lemma count_probed: "count_list (probed es) (c, n) = count_list es (Probe c n)"
  by (induction es rule: probed.induct) simp_all

subsection \<open>Interleavings\<close>

lemma mset_interleavings:
  "tr \<in> interleavings ts \<Longrightarrow> mset tr = sum_list (map mset ts)"
proof (induction ts arbitrary: tr)
  case Nil
  then show ?case by simp
next
  case (Cons t ts)
  then obtain tr' where "tr' \<in> interleavings ts" "tr \<in> shuffles t tr'" by auto
  then show ?case using Cons.IH [of tr'] by (simp add: mset_shuffles)
qed

lemma concat_interleavings: "concat ts \<in> interleavings ts"
proof (induction ts)
  case Nil
  show ?case by simp
next
  case (Cons t ts)
  have "t @ concat ts \<in> shuffles t (concat ts)"
    by (induction t) (simp_all add: Cons_in_shuffles_leftI)
  with Cons show ?case by auto
qed

lemma count_sum_list_mset: "count (sum_list (map mset ts)) x = (\<Sum>t\<leftarrow>ts. count_list t x)"
  by (induction ts) (simp_all add: count_mset)

lemma count_interleavings:
  assumes "tr \<in> interleavings ts"
  shows "count_list tr x = (\<Sum>t\<leftarrow>ts. count_list t x)"
proof -
  have "count_list tr x = count (mset tr) x" by (simp add: count_mset)
  also have "\<dots> = count (sum_list (map mset ts)) x"
    using assms by (simp add: mset_interleavings)
  finally show ?thesis by (simp add: count_sum_list_mset)
qed

lemma subseq_shuffles:
  "zs \<in> shuffles xs ys \<Longrightarrow> subseq xs zs \<and> subseq ys zs"
proof (induction xs ys arbitrary: zs rule: shuffles.induct)
  case (1 ys)
  then show ?case by simp
next
  case (2 xs)
  then show ?case by simp
next
  case (3 x xs y ys)
  from "3.prems" consider
    (l) zs' where "zs = x # zs'" "zs' \<in> shuffles xs (y # ys)"
  | (r) zs' where "zs = y # zs'" "zs' \<in> shuffles (x # xs) ys"
    by auto
  then show ?case
  proof cases
    case l
    with "3.IH"(1) [of zs'] show ?thesis by (auto intro: subseq_Cons')
  next
    case r
    with "3.IH"(2) [of zs'] show ?thesis by (auto intro: subseq_Cons')
  qed
qed

lemma subseq_interleavings:
  "tr \<in> interleavings ts \<Longrightarrow> t \<in> set ts \<Longrightarrow> subseq t tr"
proof (induction ts arbitrary: tr)
  case Nil
  then show ?case by simp
next
  case (Cons a ts)
  then obtain tr' where tr': "tr' \<in> interleavings ts" "tr \<in> shuffles a tr'" by auto
  from subseq_shuffles [OF tr'(2)] have s: "subseq a tr" "subseq tr' tr" by simp_all
  show ?case
  proof (cases "t = a")
    case True
    with s show ?thesis by simp
  next
    case False
    with Cons.prems have "t \<in> set ts" by simp
    from Cons.IH [OF tr'(1) this] s(2) show ?thesis by (rule subseq_order.trans)
  qed
qed

lemma added_mset: "added es = sum_mset (image_mset (\<lambda>e. added [e]) (mset es))"
  by (induction es rule: added.induct) simp_all

lemma added_interleavings:
  assumes "tr \<in> interleavings ts"
  shows "added tr = (\<Sum>t\<leftarrow>ts. added t)"
proof -
  have "sum_mset (image_mset (\<lambda>e. added [e]) (sum_list (map mset ts))) = (\<Sum>t\<leftarrow>ts. added t)"
    by (induction ts) (simp_all add: added_mset [symmetric])
  with assms show ?thesis
    by (simp add: added_mset [of tr] mset_interleavings)
qed

subsection \<open>Counting the effects of the scanner and the sweep\<close>

lemma IsNotFound_Some: "IsNotFound (Some err) = (err = StatusNotFound)"
  by (cases err) simp_all

lemma sum_list_distinct_pick:
  fixes f :: "'a \<Rightarrow> nat"
  assumes "distinct (map g xs)" "x \<in> set xs"
  shows "(\<Sum>y\<leftarrow>xs. if g y = g x then f y else 0) = f x"
  using assms
proof (induction xs)
  case Nil
  then show ?case by simp
next
  case (Cons a xs)
  show ?case
  proof (cases "a = x")
    case True
    with Cons.prems have "g x \<notin> g ` set xs" by simp
    then have "\<forall>y\<in>set xs. g y \<noteq> g x" by (metis imageI)
    then have "(\<Sum>y\<leftarrow>xs. if g y = g x then f y else 0) = 0"
      by (simp add: sum_list_0)
    with True show ?thesis by simp
  next
    case False
    with Cons.prems have "x \<in> set xs" "g a \<noteq> g x" by auto
    with Cons show ?thesis by simp
  qed
qed

lemma sum_list_distinct_none:
  fixes f :: "'a \<Rightarrow> nat"
  assumes "a \<notin> g ` set xs"
  shows "(\<Sum>y\<leftarrow>xs. if g y = a then f y else 0) = 0"
  using assms by (induction xs) auto

lemma checkItems_concat: "checkItems d w c items = concat (map (checkItem d w c) items)"
  by (induction items) simp_all

lemma count_list_concat_map:
  "count_list (concat (map f xs)) k = (\<Sum>x\<leftarrow>xs. count_list (f x) k)"
  by (induction xs) simp_all

lemma count_checkItem_Delete:
  "count_list (checkItem d w c v) (Delete c' n p) =
     (if c' = c \<and> n = Name v \<and> p = DefaultDeletionPolicy d \<and>
         storageclassLister_Get w (Name v) = Inl StatusNotFound \<and>
         MultiClusterController_GetClusterClient w c = None
      then 1 else 0)"
  by (auto simp: checkItem_def IsNotFound_Some split: sum.split option.split)

lemma count_checkItem_AddToQueue:
  "count_list (checkItem d w c v) (AddToQueue k) =
     (case storageclassLister_Get w (Name v) of
        Inl err \<Rightarrow> 0
      | Inr p \<Rightarrow> if CheckStorageClassEquality d p v \<noteq> None \<and> publicStorageClass d p \<and>
                     k = c @ ''/'' @ Name p
                  then 1 else 0)"
  by (auto simp: checkItem_def IsNotFound_Some split: sum.split option.split)

lemma count_check_Delete:
  "count_list (checkStorageClassOfTenantCluster d w c) (Delete c' n p) =
     (case MultiClusterController_List w c of
        Inl err \<Rightarrow> 0
      | Inr items \<Rightarrow> (\<Sum>v\<leftarrow>items. count_list (checkItem d w c v) (Delete c' n p)))"
  by (simp add: checkStorageClassOfTenantCluster_def checkItems_concat count_list_concat_map
      split: sum.split)

lemma count_check_AddToQueue:
  "count_list (checkStorageClassOfTenantCluster d w c) (AddToQueue k) =
     (case MultiClusterController_List w c of
        Inl err \<Rightarrow> 0
      | Inr items \<Rightarrow> (\<Sum>v\<leftarrow>items. count_list (checkItem d w c v) (AddToQueue k)))"
  by (simp add: checkStorageClassOfTenantCluster_def checkItems_concat count_list_concat_map
      split: sum.split)

lemma deleted_probeCluster: "deleted (probeCluster w p c) = []"
  by (simp add: probeCluster_def IsNotFound_Some split: option.split)

lemma deleted_concat_Nil: "(\<And>x. x \<in> set xs \<Longrightarrow> deleted (f x) = []) \<Longrightarrow> deleted (concat (map f xs)) = []"
  by (induction xs) (simp_all add: deleted_append)

lemma deleted_sweep: "deleted (sweep d w cs ps) = []"
  by (simp add: sweep_def sweepObject_def deleted_concat_Nil deleted_probeCluster)

lemma added_probeCluster: "added (probeCluster w p c) = 0"
  by (simp add: probeCluster_def IsNotFound_Some split: option.split)

lemma added_concat_0: "(\<And>x. x \<in> set xs \<Longrightarrow> added (f x) = 0) \<Longrightarrow> added (concat (map f xs)) = 0"
  by (induction xs) (simp_all add: added_append)

lemma added_sweep: "added (sweep d w cs ps) = 0"
  by (simp add: sweep_def sweepObject_def added_concat_0 added_probeCluster)

text \<open>The inputs of a pass are not changed by running effects.\<close>

lemma run_inputs:
  "MultiClusterController_GetClusterNames (run es w) = MultiClusterController_GetClusterNames w"
  "MultiClusterController_List (run es w) = MultiClusterController_List w"
  "MultiClusterController_Get (run es w) = MultiClusterController_Get w"
  "MultiClusterController_GetClusterClient (run es w) = MultiClusterController_GetClusterClient w"
  "StorageClasses_Delete (run es w) = StorageClasses_Delete w"
  "storageclassLister_Get (run es w) = storageclassLister_Get w"
  "storageclassLister_List (run es w) = storageclassLister_List w"
  "WaitForCacheSync (run es w) = WaitForCacheSync w"
  by (simp_all add: run_eq)

lemma run_outputs:
  "numMissMatchedStorageClasses (run es w) = numMissMatchedStorageClasses w + added es"
  "UpwardQueue (run es w) = UpwardQueue w @ queued es"
  "DeleteCalls (run es w) = DeleteCalls w @ deleted es"
  "Probes (run es w) = Probes w @ probed es"
  "CheckerRemedyStats (run es w) l = CheckerRemedyStats w l + remedied es l"
  "CheckerMissMatchStats (run es w) = CheckerMissMatchStats w"
  "klog (run es w) = klog w @ logged es"
  "PatrollerStarts (run es w) = PatrollerStarts w"
  by (simp_all add: run_eq)

lemma probeCluster_inputs:
  "probeCluster (run es w) = probeCluster w"
  "probeCluster (w\<lparr>numMissMatchedStorageClasses := n\<rparr>) = probeCluster w"
  by (simp_all add: fun_eq_iff probeCluster_def run_inputs)

lemma sweepObject_inputs:
  "sweepObject d (run es w) = sweepObject d w"
  "sweepObject d (w\<lparr>numMissMatchedStorageClasses := n\<rparr>) = sweepObject d w"
  by (simp_all add: fun_eq_iff sweepObject_def probeCluster_inputs)

lemma sweep_inputs:
  "sweep d (run es w) = sweep d w"
  "sweep d (w\<lparr>numMissMatchedStorageClasses := n\<rparr>) = sweep d w"
  by (simp_all add: fun_eq_iff sweep_def sweepObject_inputs)

lemma PatrollerDo_DeleteCalls:
  assumes "MultiClusterController_GetClusterNames w \<noteq> []"
  shows "DeleteCalls (PatrollerDo d sched w) = DeleteCalls w @ deleted sched"
  using assms
  by (simp add: PatrollerDo_def Let_def run_outputs run_inputs deleted_sweep split: sum.split)

lemma count_schedule:
  assumes "sched \<in> schedules d w"
  shows "count_list sched x =
    (\<Sum>c\<leftarrow>MultiClusterController_GetClusterNames w.
        count_list (checkStorageClassOfTenantCluster d w c) x)"
  using count_interleavings [OF assms [unfolded schedules_def]]
  by (simp add: goroutines_def comp_def)


lemma sequential_schedule: "sequential d w \<in> schedules d w"
  by (simp add: sequential_def schedules_def concat_interleavings)

lemma unit_adds_append: "unit_adds (es @ fs) = (unit_adds es \<and> unit_adds fs)"
  by (simp add: unit_adds_def)

lemma added_unit: "unit_adds es \<Longrightarrow> added es = of_nat (count_list es (AtomicAddUint64 1))"
  by (induction es rule: added.induct) (simp_all add: unit_adds_def)

subsection \<open>Sums over lists with distinct keys\<close>

lemma sum_list_cong_set:
  "(\<And>x. x \<in> set xs \<Longrightarrow> f x = g x) \<Longrightarrow> sum_list (map f xs) = sum_list (map g xs)"
  by (induction xs) simp_all

lemma sum_list_distinct_le1:
  fixes f :: "'a \<Rightarrow> nat"
  assumes "distinct (map g xs)" "\<And>y. f y \<le> 1"
  shows "(\<Sum>y\<leftarrow>xs. if g y = a then f y else 0) \<le> 1"
proof (cases "a \<in> g ` set xs")
  case True
  then obtain x where x: "x \<in> set xs" "a = g x" by auto
  with sum_list_distinct_pick [OF assms(1) x(1), of f] assms(2) show ?thesis by simp
next
  case False
  then show ?thesis by (simp add: sum_list_distinct_none)
qed

lemma sum_list_nonzero:
  fixes f :: "'a \<Rightarrow> nat"
  shows "0 < sum_list (map f xs) \<Longrightarrow> \<exists>x\<in>set xs. 0 < f x"
  by (induction xs) auto

lemma key_inject:
  assumes "CHR ''/'' \<notin> set c" "CHR ''/'' \<notin> set c'"
  shows "(c @ CHR ''/'' # n = c' @ CHR ''/'' # n') = (c = c' \<and> n = n')"
proof
  assume eq: "c @ CHR ''/'' # n = c' @ CHR ''/'' # n'"
  have "takeWhile (\<lambda>x. x \<noteq> CHR ''/'') (c @ CHR ''/'' # n) = c"
    using assms(1) by (subst takeWhile_append2) auto
  moreover have "takeWhile (\<lambda>x. x \<noteq> CHR ''/'') (c' @ CHR ''/'' # n') = c'"
    using assms(2) by (subst takeWhile_append2) auto
  ultimately have "c = c'" using eq by simp
  with eq show "c = c' \<and> n = n'" by simp
next
  assume "c = c' \<and> n = n'"
  then show "c @ CHR ''/'' # n = c' @ CHR ''/'' # n'" by simp
qed

subsection \<open>The scanner\<close>

lemma unit_adds_checkItem: "unit_adds (checkItem d w c v)"
  by (simp add: unit_adds_def checkItem_def split: sum.split option.split)

lemma unit_adds_checkItems: "unit_adds (checkItems d w c items)"
  by (induction items) (simp_all add: unit_adds_append unit_adds_checkItem, simp add: unit_adds_def)

lemma unit_adds_check: "unit_adds (checkStorageClassOfTenantCluster d w c)"
  using unit_adds_checkItems [of d w c]
  by (simp add: checkStorageClassOfTenantCluster_def unit_adds_def split: sum.split)

lemma added_check:
  "added (checkStorageClassOfTenantCluster d w c) =
     of_nat (count_list (checkStorageClassOfTenantCluster d w c) (AtomicAddUint64 1))"
  by (rule added_unit [OF unit_adds_check])

lemma added_schedule:
  assumes "sched \<in> schedules d w"
  shows "added sched = of_nat (\<Sum>t\<leftarrow>goroutines d w. count_list t (AtomicAddUint64 1))"
proof -
  have "added sched = (\<Sum>t\<leftarrow>goroutines d w. added t)"
    using assms by (simp add: schedules_def added_interleavings)
  also have "\<dots> = (\<Sum>t\<leftarrow>goroutines d w. of_nat (count_list t (AtomicAddUint64 1)))"
    by (intro arg_cong [where f = sum_list] map_cong) (auto simp: goroutines_def added_check)
  also have "\<dots> = of_nat (\<Sum>t\<leftarrow>goroutines d w. count_list t (AtomicAddUint64 1))"
    by (simp add: sum_list_of_nat [symmetric] comp_def)
  finally show ?thesis .
qed

lemma check_listfail:
  assumes "MultiClusterController_List w c = Inl err"
  shows "checkStorageClassOfTenantCluster d w c =
     [Klog (Errorf ''error listing storageclass from cluster %s informer cache: %v''
              [Str c, Err err])]"
  using assms by (simp add: checkStorageClassOfTenantCluster_def)

lemma checkItem_List_upd:
  "checkItem d (w\<lparr>MultiClusterController_List := f\<rparr>) = checkItem d w"
  by (simp add: fun_eq_iff checkItem_def split: sum.split option.split)

lemma checkItems_List_upd:
  "checkItems d (w\<lparr>MultiClusterController_List := f\<rparr>) c items = checkItems d w c items"
  by (induction items) (simp_all add: checkItem_List_upd)

lemma check_other_cluster:
  assumes "c' \<noteq> c"
  shows "checkStorageClassOfTenantCluster d
           (w\<lparr>MultiClusterController_List := (MultiClusterController_List w)(c := r)\<rparr>) c' =
         checkStorageClassOfTenantCluster d w c'"
  using assms
  by (simp add: checkStorageClassOfTenantCluster_def checkItems_List_upd split: sum.split)

lemma probed_checkItem: "probed (checkItem d w c v) = []"
  by (simp add: checkItem_def split: sum.split option.split)

lemma probed_checkItems: "probed (checkItems d w c items) = []"
  by (induction items) (simp_all add: probed_append probed_checkItem)

lemma probed_check: "probed (checkStorageClassOfTenantCluster d w c) = []"
  by (simp add: checkStorageClassOfTenantCluster_def probed_checkItems split: sum.split)




lemma check_key_form:
  assumes "0 < count_list (checkStorageClassOfTenantCluster d w c) (AddToQueue k)"
  shows "\<exists>n. k = c @ ''/'' @ n"
proof (cases "MultiClusterController_List w c")
  case (Inl err)
  with assms show ?thesis by (simp add: count_check_AddToQueue)
next
  case (Inr items)
  with assms have "0 < (\<Sum>v\<leftarrow>items. count_list (checkItem d w c v) (AddToQueue k))"
    by (simp add: count_check_AddToQueue)
  from sum_list_nonzero [OF this]
  obtain v where "0 < count_list (checkItem d w c v) (AddToQueue k)" by blast
  then show ?thesis
    by (auto simp: count_checkItem_AddToQueue split: sum.splits if_splits)
qed

lemma count_check_own_key:
  assumes lc: "\<forall>n p. storageclassLister_Get w n = Inr p \<longrightarrow> Name p = n"
    and items: "MultiClusterController_List w c = Inr items"
  shows "count_list (checkStorageClassOfTenantCluster d w c) (AddToQueue (c @ ''/'' @ n)) =
     (\<Sum>v\<leftarrow>items. if Name v = n then
        (case storageclassLister_Get w n of
           Inl err \<Rightarrow> 0
         | Inr p \<Rightarrow> if CheckStorageClassEquality d p v \<noteq> None \<and> publicStorageClass d p
                     then 1 else 0)
      else 0)"
proof -
  have "count_list (checkItem d w c v) (AddToQueue (c @ ''/'' @ n)) =
        (if Name v = n then
          (case storageclassLister_Get w n of
             Inl err \<Rightarrow> 0
           | Inr p \<Rightarrow> if CheckStorageClassEquality d p v \<noteq> None \<and> publicStorageClass d p
                       then 1 else 0)
         else 0)" for v
    using lc by (auto simp: count_checkItem_AddToQueue split: sum.split)
  then show ?thesis
    by (simp add: count_check_AddToQueue items)
qed

lemma count_check_other_key:
  assumes "c' \<noteq> c" "CHR ''/'' \<notin> set c" "CHR ''/'' \<notin> set c'"
  shows "count_list (checkStorageClassOfTenantCluster d w c') (AddToQueue (c @ ''/'' @ n)) = 0"
proof (rule ccontr)
  assume "count_list (checkStorageClassOfTenantCluster d w c') (AddToQueue (c @ ''/'' @ n)) \<noteq> 0"
  then have "0 < count_list (checkStorageClassOfTenantCluster d w c') (AddToQueue (c @ ''/'' @ n))"
    by simp
  from check_key_form [OF this] obtain n' where "c @ ''/'' @ n = c' @ ''/'' @ n'" by blast
  with key_inject [OF assms(2,3), of n n'] assms(1) show False by simp
qed

lemma count_schedule_key:
  assumes sched: "sched \<in> schedules d w"
    and c: "c \<in> set (MultiClusterController_GetClusterNames w)"
    and dc: "distinct (MultiClusterController_GetClusterNames w)"
    and slash: "\<forall>c'\<in>set (MultiClusterController_GetClusterNames w). CHR ''/'' \<notin> set c'"
  shows "count_list sched (AddToQueue (c @ ''/'' @ n)) =
         count_list (checkStorageClassOfTenantCluster d w c) (AddToQueue (c @ ''/'' @ n))"
proof -
  let ?cs = "MultiClusterController_GetClusterNames w"
  let ?f = "\<lambda>c'. count_list (checkStorageClassOfTenantCluster d w c') (AddToQueue (c @ ''/'' @ n))"
  have "count_list sched (AddToQueue (c @ ''/'' @ n)) = (\<Sum>c'\<leftarrow>?cs. ?f c')"
    by (rule count_schedule [OF sched])
  also have "\<dots> = (\<Sum>c'\<leftarrow>?cs. if id c' = id c then ?f c' else 0)"
  proof (intro sum_list_cong_set)
    fix c' assume "c' \<in> set ?cs"
    with slash c have "CHR ''/'' \<notin> set c" "CHR ''/'' \<notin> set c'" by auto
    then show "?f c' = (if id c' = id c then ?f c' else 0)"
      using count_check_other_key [of c' c d w n] by auto
  qed
  also have "\<dots> = ?f c"
    using sum_list_distinct_pick [of id ?cs c ?f] dc c by simp
  finally show ?thesis .
qed

subsection \<open>The sweep\<close>

lemma count_probeCluster_AddToQueue:
  "count_list (probeCluster w p c) (AddToQueue k) =
     (if MultiClusterController_Get w c (Name p) = Some StatusNotFound \<and> k = c @ ''/'' @ Name p
      then 1 else 0)"
  by (auto simp: probeCluster_def IsNotFound_Some split: option.split)

lemma count_probeCluster_Probe:
  "count_list (probeCluster w p c) (Probe c' n) = (if c' = c \<and> n = Name p then 1 else 0)"
  by (auto simp: probeCluster_def IsNotFound_Some split: option.split)

lemma count_sweep:
  "count_list (sweep d w cs ps) x =
     (\<Sum>p\<leftarrow>ps. if publicStorageClass d p
               then (\<Sum>c\<leftarrow>cs. count_list (probeCluster w p c) x) else 0)"
  by (auto simp: sweep_def sweepObject_def count_list_concat_map intro!: sum_list_cong_set)

lemma count_sweep_AddToQueue:
  assumes c: "c \<in> set cs" and dc: "distinct cs"
    and slash: "\<forall>c'\<in>set cs. CHR ''/'' \<notin> set c'"
  shows "count_list (sweep d w cs ps) (AddToQueue (c @ ''/'' @ n)) =
     (\<Sum>p\<leftarrow>ps. if Name p = n then
         (if publicStorageClass d p \<and> MultiClusterController_Get w c n = Some StatusNotFound
          then 1 else 0) else 0)"
proof -
  have inner: "(\<Sum>c'\<leftarrow>cs. count_list (probeCluster w p c') (AddToQueue (c @ ''/'' @ n))) =
      (if Name p = n \<and> MultiClusterController_Get w c n = Some StatusNotFound then 1 else 0)"
    for p
  proof -
    let ?f = "\<lambda>c'. if Name p = n \<and> MultiClusterController_Get w c n = Some StatusNotFound
                    then 1 else (0::nat)"
    have "(\<Sum>c'\<leftarrow>cs. count_list (probeCluster w p c') (AddToQueue (c @ ''/'' @ n))) =
          (\<Sum>c'\<leftarrow>cs. if id c' = id c then ?f c' else 0)"
    proof (intro sum_list_cong_set)
      fix c' assume "c' \<in> set cs"
      with slash c have "CHR ''/'' \<notin> set c" "CHR ''/'' \<notin> set c'" by auto
      from key_inject [OF this] show
        "count_list (probeCluster w p c') (AddToQueue (c @ ''/'' @ n)) =
           (if id c' = id c then ?f c' else 0)"
        by (auto simp: count_probeCluster_AddToQueue)
    qed
    also have "\<dots> = ?f c"
      using sum_list_distinct_pick [of id cs c ?f] dc c by simp
    finally show ?thesis .
  qed
  show ?thesis
    unfolding count_sweep inner
    by (intro sum_list_cong_set) auto
qed

lemma count_sweep_Probe:
  assumes c: "c \<in> set cs" and dc: "distinct cs"
  shows "count_list (sweep d w cs ps) (Probe c n) =
     (\<Sum>p\<leftarrow>ps. if Name p = n then (if publicStorageClass d p then 1 else 0) else 0)"
proof -
  have inner: "(\<Sum>c'\<leftarrow>cs. count_list (probeCluster w p c') (Probe c n)) =
      (if Name p = n then 1 else 0)" for p
  proof -
    let ?f = "\<lambda>c'. if Name p = n then 1 else (0::nat)"
    have "(\<Sum>c'\<leftarrow>cs. count_list (probeCluster w p c') (Probe c n)) =
          (\<Sum>c'\<leftarrow>cs. if id c' = id c then ?f c' else 0)"
      by (intro sum_list_cong_set) (auto simp: count_probeCluster_Probe)
    also have "\<dots> = ?f c"
      using sum_list_distinct_pick [of id cs c ?f] dc c by simp
    finally show ?thesis .
  qed
  show ?thesis
    unfolding count_sweep inner
    by (intro sum_list_cong_set) auto
qed

lemma logged_probeCluster:
  "logged (probeCluster w p c) =
     (case MultiClusterController_Get w c (Name p) of
        None \<Rightarrow> []
      | Some err \<Rightarrow> [Errorf ''fail to get storageclass from cluster %s: %v'' [Str c, Err err]])"
  by (simp add: probeCluster_def IsNotFound_Some split: option.split)

lemma logged_concat: "logged (concat ess) = concat (map logged ess)"
  by (induction ess) (simp_all add: logged_append)

lemma logged_sweep_mem:
  assumes "p \<in> set ps" "c \<in> set cs" "publicStorageClass d p"
    "MultiClusterController_Get w c (Name p) = Some err"
  shows "Errorf ''fail to get storageclass from cluster %s: %v'' [Str c, Err err]
           \<in> set (logged (sweep d w cs ps))"
proof -
  have "Errorf ''fail to get storageclass from cluster %s: %v'' [Str c, Err err]
          \<in> set (logged (sweepObject d w cs p))"
    using assms(2-4)
    by (auto simp: sweepObject_def logged_concat logged_probeCluster intro!: bexI [of _ c])
  then show ?thesis
    using assms(1) by (auto simp: sweep_def logged_concat)
qed

lemma sweep_key_form:
  assumes "0 < count_list (sweep d w cs ps) (AddToQueue k)"
  shows "\<exists>c\<in>set cs. \<exists>n. k = c @ ''/'' @ n"
proof -
  from assms [unfolded count_sweep, THEN sum_list_nonzero]
  obtain p where "p \<in> set ps"
    and "0 < (if publicStorageClass d p
          then (\<Sum>c\<leftarrow>cs. count_list (probeCluster w p c) (AddToQueue k)) else 0)"
    by blast
  then have "0 < (\<Sum>c\<leftarrow>cs. count_list (probeCluster w p c) (AddToQueue k))"
    by (simp split: if_splits)
  from sum_list_nonzero [OF this]
  obtain c where "c \<in> set cs" "0 < count_list (probeCluster w p c) (AddToQueue k)"
    by blast
  then show ?thesis
    by (auto simp: count_probeCluster_AddToQueue split: if_splits)
qed

subsection \<open>The pass\<close>

lemma PatrollerDo_empty:
  assumes "MultiClusterController_GetClusterNames w = []"
  shows "PatrollerDo d sched w =
     w\<lparr>klog := klog w @
        [Infof ''super cluster has no tenant control planes, giving up periodic checker: %s''
           [Str ''storageclass'']]\<rparr>"
  using assms by (simp add: PatrollerDo_def)

lemma PatrollerDo_listfail:
  assumes "MultiClusterController_GetClusterNames w \<noteq> []"
    and "storageclassLister_List w = Inl err"
  shows "PatrollerDo d sched w =
     run (sched @ [Klog (Errorf
            ''error listing storageclass from super master informer cache: %v'' [Err err])])
       (w\<lparr>numMissMatchedStorageClasses := 0\<rparr>)"
  using assms by (simp add: PatrollerDo_def Let_def run_inputs run_append)

lemma PatrollerDo_listok:
  assumes "MultiClusterController_GetClusterNames w \<noteq> []"
    and "storageclassLister_List w = Inr ps"
  shows "PatrollerDo d sched w =
     (run (sched @ sweep d w (MultiClusterController_GetClusterNames w) ps)
        (w\<lparr>numMissMatchedStorageClasses := 0\<rparr>))
     \<lparr>CheckerMissMatchStats := (CheckerMissMatchStats w)
        (''MissMatchedStorageClasses'' \<mapsto> added sched)\<rparr>"
  using assms
  by (simp add: PatrollerDo_def Let_def run_inputs run_outputs run_append sweep_inputs
      added_sweep)

lemma PatrollerDo_numMiss:
  assumes "MultiClusterController_GetClusterNames w \<noteq> []"
  shows "numMissMatchedStorageClasses (PatrollerDo d sched w) = added sched"
proof (cases "storageclassLister_List w")
  case (Inl err)
  from PatrollerDo_listfail [OF assms Inl] show ?thesis
    by (simp add: run_outputs added_append)
next
  case (Inr ps)
  from PatrollerDo_listok [OF assms Inr] show ?thesis
    by (simp add: run_outputs added_append added_sweep)
qed

lemma PatrollerDo_UpwardQueue:
  assumes "MultiClusterController_GetClusterNames w \<noteq> []"
  shows "UpwardQueue (PatrollerDo d sched w) =
     UpwardQueue w @ queued sched @
     (case storageclassLister_List w of
        Inl err \<Rightarrow> []
      | Inr ps \<Rightarrow> queued (sweep d w (MultiClusterController_GetClusterNames w) ps))"
proof (cases "storageclassLister_List w")
  case (Inl err)
  from PatrollerDo_listfail [OF assms Inl] Inl show ?thesis
    by (simp add: run_outputs queued_append)
next
  case (Inr ps)
  from PatrollerDo_listok [OF assms Inr] Inr show ?thesis
    by (simp add: run_outputs queued_append)
qed

lemma subseq_concat_member: "x \<in> set xs \<Longrightarrow> subseq x (concat xs)"
proof -
  assume "x \<in> set xs"
  then obtain as bs where "xs = as @ x # bs" by (auto dest: split_list)
  then have "concat xs = concat as @ x @ concat bs" by simp
  then show ?thesis by (simp add: list_emb_append2 list_emb_prefix)
qed

lemma subseq_checkItem:
  assumes "MultiClusterController_List w c = Inr items" "v \<in> set items"
  shows "subseq (checkItem d w c v) (checkStorageClassOfTenantCluster d w c)"
proof -
  have "subseq (checkItem d w c v) (checkItems d w c items)"
    using assms(2) by (simp add: checkItems_concat subseq_concat_member)
  then show ?thesis
    using assms(1) by (simp add: checkStorageClassOfTenantCluster_def list_emb_Cons)
qed

lemma Klog_logged: "(Klog l \<in> set es) = (l \<in> set (logged es))"
  by (induction es rule: logged.induct) auto

lemma PatrollerDo_klog:
  assumes "MultiClusterController_GetClusterNames w \<noteq> []"
  shows "klog (PatrollerDo d sched w) =
     klog w @ logged sched @
     (case storageclassLister_List w of
        Inl err \<Rightarrow>
          [Errorf ''error listing storageclass from super master informer cache: %v'' [Err err]]
      | Inr ps \<Rightarrow> logged (sweep d w (MultiClusterController_GetClusterNames w) ps))"
proof (cases "storageclassLister_List w")
  case (Inl err)
  from PatrollerDo_listfail [OF assms Inl] Inl show ?thesis
    by (simp add: run_outputs logged_append)
next
  case (Inr ps)
  from PatrollerDo_listok [OF assms Inr] Inr show ?thesis
    by (simp add: run_outputs logged_append)
qed

lemma schedule_logs:
  assumes sched: "sched \<in> schedules d w"
    and c: "c \<in> set (MultiClusterController_GetClusterNames w)"
    and l: "Klog l \<in> set (checkStorageClassOfTenantCluster d w c)"
  shows "l \<in> set (klog (PatrollerDo d sched w))"
proof -
  from c have ne: "MultiClusterController_GetClusterNames w \<noteq> []" by auto
  from sched c have "subseq (checkStorageClassOfTenantCluster d w c) sched"
    by (simp add: schedules_def goroutines_def subseq_interleavings)
  then have "set (checkStorageClassOfTenantCluster d w c) \<subseteq> set sched"
    by (auto elim: list_emb_set)
  with l have "Klog l \<in> set sched" by blast
  then have "l \<in> set (logged sched)" by (simp only: Klog_logged)
  then show ?thesis by (simp add: PatrollerDo_klog [OF ne])
qed

lemma item_logs:
  assumes sched: "sched \<in> schedules d w"
    and c: "c \<in> set (MultiClusterController_GetClusterNames w)"
    and items: "MultiClusterController_List w c = Inr items" and v: "v \<in> set items"
    and l: "Klog l \<in> set (checkItem d w c v)"
  shows "l \<in> set (klog (PatrollerDo d sched w))"
proof -
  from subseq_checkItem [OF items v, of d] l
  have "Klog l \<in> set (checkStorageClassOfTenantCluster d w c)"
    by (auto elim: list_emb_set)
  from schedule_logs [OF sched c this] show ?thesis .
qed

lemma sweep_logs:
  assumes ne: "MultiClusterController_GetClusterNames w \<noteq> []"
    and ps: "storageclassLister_List w = Inr ps"
    and l: "l \<in> set (logged (sweep d w (MultiClusterController_GetClusterNames w) ps))"
  shows "l \<in> set (klog (PatrollerDo d sched w))"
  using l by (simp add: PatrollerDo_klog [OF ne] ps)

subsection \<open>The concrete worlds\<close>

lemma w0_facts:
  "MultiClusterController_GetClusterNames w0 = [''T1'', ''T2'', ''T3'']"
  "storageclassLister_List w0 =
     Inr [sc ''A'' True ''x'', sc ''B'' False ''x'', sc ''D'' True ''x'', sc ''E'' True ''x'']"
  "MultiClusterController_List w0 ''T3'' = Inl (OtherError ''cache not ready'')"
  "MultiClusterController_Get w0 ''T1'' ''E'' = Some StatusNotFound"
  "MultiClusterController_Get w0 ''T1'' ''B'' = None"
  "MultiClusterController_Get w0 ''T3'' ''A'' = Some (OtherError ''cache not ready'')"
  "UpwardQueue w0 = []"
  "CheckerMissMatchStats w0 = (\<lambda>l. None)"
  by (simp_all add: w0_def)

lemma sc_facts:
  "Name (sc n pub prov) = n"
  "publicStorageClass d0 (sc n pub prov) = pub"
  by (simp_all add: sc_def d0_def)

lemma w0_clusters: "MultiClusterController_GetClusterNames w0 \<noteq> []"
  by (simp add: w0_def)

lemma w0_wellformed:
  "distinct (MultiClusterController_GetClusterNames w0)"
  "\<forall>c\<in>set (MultiClusterController_GetClusterNames w0). CHR ''/'' \<notin> set c"
  "\<forall>c items. MultiClusterController_List w0 c = Inr items \<longrightarrow> distinct (map Name items)"
  "\<forall>ps. storageclassLister_List w0 = Inr ps \<longrightarrow> distinct (map Name ps)"
  "\<forall>n p. storageclassLister_Get w0 n = Inr p \<longrightarrow> Name p = n"
  "\<forall>c items v. MultiClusterController_List w0 c = Inr items \<longrightarrow> v \<in> set items \<longrightarrow>
     MultiClusterController_Get w0 c (Name v) \<noteq> Some StatusNotFound"
proof -
  show "distinct (MultiClusterController_GetClusterNames w0)" by (simp add: w0_def)
  show "\<forall>c\<in>set (MultiClusterController_GetClusterNames w0). CHR ''/'' \<notin> set c"
    by (simp add: w0_def)
  show "\<forall>c items. MultiClusterController_List w0 c = Inr items \<longrightarrow> distinct (map Name items)"
    by (auto simp: w0_def sc_def split: if_splits)
  show "\<forall>ps. storageclassLister_List w0 = Inr ps \<longrightarrow> distinct (map Name ps)"
    by (auto simp: w0_def sc_def)
  show "\<forall>n p. storageclassLister_Get w0 n = Inr p \<longrightarrow> Name p = n"
    by (auto simp: w0_def sc_def split: if_splits)
  show "\<forall>c items v. MultiClusterController_List w0 c = Inr items \<longrightarrow> v \<in> set items \<longrightarrow>
     MultiClusterController_Get w0 c (Name v) \<noteq> Some StatusNotFound"
    by (auto simp: w0_def sc_def split: if_splits)
qed

lemma goroutines_w0:
  "goroutines d0 w0 =
    [[Klog (V_Infof 4 ''check storageclass consistency in cluster %s'' [Str ''T1'']),
      Delete ''T1'' ''C'' DeletePropagationBackground,
      RemedyStatsInc ''DeletedOrphanTenantStorageClasses'',
      AtomicAddUint64 1,
      Klog (Warningf ''spec of storageClass %v diff in super&tenant master'' [Str ''B'']),
      AtomicAddUint64 1,
      Klog (Warningf ''spec of storageClass %v diff in super&tenant master'' [Str ''D'']),
      AddToQueue ''T1/D''],
     [Klog (V_Infof 4 ''check storageclass consistency in cluster %s'' [Str ''T2''])],
     [Klog (Errorf ''error listing storageclass from cluster %s informer cache: %v''
        [Str ''T3'', Err (OtherError ''cache not ready'')])]]"
  by (simp add: goroutines_def checkStorageClassOfTenantCluster_def checkItem_def
      w0_def d0_def sc_def)

lemma added_sequential_w0: "added (sequential d0 w0) = 2"
  by (simp add: sequential_def goroutines_def checkStorageClassOfTenantCluster_def
      checkItem_def w0_def d0_def sc_def)

lemma pass_w0_queue:
  "UpwardQueue (PatrollerDo d0 (sequential d0 w0) w0) =
     [''T1/D'', ''T2/A'', ''T2/D'', ''T1/E'', ''T2/E'']"
proof -
  have s: "sweep d0 w0 (MultiClusterController_GetClusterNames w0)
      [sc ''A'' True ''x'', sc ''B'' False ''x'', sc ''D'' True ''x'', sc ''E'' True ''x''] =
    [Probe ''T1'' ''A'',
     Probe ''T2'' ''A'', RemedyStatsInc ''RequeuedSuperMasterStorageClasses'',
     AddToQueue ''T2/A'',
     Klog (Errorf ''fail to get storageclass from cluster %s: %v''
        [Str ''T2'', Err StatusNotFound]),
     Probe ''T3'' ''A'',
     Klog (Errorf ''fail to get storageclass from cluster %s: %v''
        [Str ''T3'', Err (OtherError ''cache not ready'')]),
     Probe ''T1'' ''D'',
     Probe ''T2'' ''D'', RemedyStatsInc ''RequeuedSuperMasterStorageClasses'',
     AddToQueue ''T2/D'',
     Klog (Errorf ''fail to get storageclass from cluster %s: %v''
        [Str ''T2'', Err StatusNotFound]),
     Probe ''T3'' ''D'',
     Klog (Errorf ''fail to get storageclass from cluster %s: %v''
        [Str ''T3'', Err (OtherError ''cache not ready'')]),
     Probe ''T1'' ''E'', RemedyStatsInc ''RequeuedSuperMasterStorageClasses'',
     AddToQueue ''T1/E'',
     Klog (Errorf ''fail to get storageclass from cluster %s: %v''
        [Str ''T1'', Err StatusNotFound]),
     Probe ''T2'' ''E'', RemedyStatsInc ''RequeuedSuperMasterStorageClasses'',
     AddToQueue ''T2/E'',
     Klog (Errorf ''fail to get storageclass from cluster %s: %v''
        [Str ''T2'', Err StatusNotFound]),
     Probe ''T3'' ''E'',
     Klog (Errorf ''fail to get storageclass from cluster %s: %v''
        [Str ''T3'', Err (OtherError ''cache not ready'')])]"
    by (simp add: sweep_def sweepObject_def probeCluster_def w0_def d0_def sc_def)
  have q: "queued (sequential d0 w0) = [''T1/D'']"
    by (simp add: sequential_def goroutines_w0)
  show ?thesis
    by (simp add: PatrollerDo_UpwardQueue [OF w0_clusters] w0_facts(2) w0_facts(7) q s)
qed



subsection \<open>More about the scanner and the pass\<close>

lemma run_checkItem_pair:
  assumes "storageclassLister_Get w (Name v) = Inr p"
  shows "run (checkItem d w c v) w' =
           (case CheckStorageClassEquality d p v of
              None \<Rightarrow> w'
            | Some u \<Rightarrow>
                w'\<lparr>numMissMatchedStorageClasses := numMissMatchedStorageClasses w' + 1,
                   UpwardQueue := UpwardQueue w' @
                     (if publicStorageClass d p then [c @ ''/'' @ Name p] else []),
                   klog := klog w' @
                     [Warningf ''spec of storageClass %v diff in super&tenant master''
                        [Str (Name v)]]\<rparr>)"
  using assms by (simp add: checkItem_def split: option.split)

lemma checkItems_append:
  "checkItems d w c (xs @ ys) = checkItems d w c xs @ checkItems d w c ys"
  by (simp add: checkItems_concat)

lemma added_checkItem:
  "added (checkItem d w c v) = (if mismatched d w v then 1 else 0)"
  by (simp add: checkItem_def mismatched_def split: sum.split option.split)

lemma added_checkItems:
  "added (checkItems d w c items) = of_nat (length (filter (mismatched d w) items))"
  by (induction items) (simp_all add: added_append added_checkItem)

lemma added_check_mismatched:
  "added (checkStorageClassOfTenantCluster d w c) =
     of_nat (case MultiClusterController_List w c of
               Inl err \<Rightarrow> 0
             | Inr items \<Rightarrow> length (filter (mismatched d w) items))"
  by (simp add: checkStorageClassOfTenantCluster_def added_checkItems split: sum.split)

lemma added_schedule_mismatched:
  assumes "sched \<in> schedules d w"
  shows "added sched =
     of_nat (\<Sum>c\<leftarrow>MultiClusterController_GetClusterNames w.
        case MultiClusterController_List w c of
          Inl err \<Rightarrow> 0
        | Inr items \<Rightarrow> length (filter (mismatched d w) items))"
proof -
  have "added sched = (\<Sum>t\<leftarrow>goroutines d w. added t)"
    using assms by (simp add: schedules_def added_interleavings)
  also have "\<dots> = (\<Sum>c\<leftarrow>MultiClusterController_GetClusterNames w.
        of_nat (case MultiClusterController_List w c of
          Inl err \<Rightarrow> 0
        | Inr items \<Rightarrow> length (filter (mismatched d w) items)))"
    by (simp add: goroutines_def comp_def added_check_mismatched)
  finally show ?thesis by (simp add: sum_list_of_nat [symmetric] comp_def)
qed

lemma count_schedule_Delete_found:
  assumes sched: "sched \<in> schedules d w"
    and p: "storageclassLister_Get w n = Inr p"
  shows "count_list sched (Delete c n pol) = 0"
proof -
  have item: "count_list (checkItem d w c' v) (Delete c n pol) = 0" for c' v
    using p by (auto simp: count_checkItem_Delete)
  have scan: "count_list (checkStorageClassOfTenantCluster d w c') (Delete c n pol) = 0" for c'
  proof (cases "MultiClusterController_List w c'")
    case (Inl err)
    then show ?thesis by (simp add: count_check_Delete)
  next
    case (Inr items)
    have "(\<Sum>v\<leftarrow>items. count_list (checkItem d w c' v) (Delete c n pol)) =
          (\<Sum>v\<leftarrow>items. 0)"
      by (rule sum_list_cong_set) (rule item)
    with Inr show ?thesis by (simp add: count_check_Delete)
  qed
  have "count_list sched (Delete c n pol) =
        (\<Sum>c'\<leftarrow>MultiClusterController_GetClusterNames w. 0)"
    unfolding count_schedule [OF sched] by (rule sum_list_cong_set) (rule scan)
  then show ?thesis by simp
qed

lemma set_interleavings: "tr \<in> interleavings ts \<Longrightarrow> set tr = \<Union> (set ` set ts)"
proof -
  assume "tr \<in> interleavings ts"
  then have "set_mset (mset tr) = set_mset (sum_list (map mset ts))"
    by (simp add: mset_interleavings)
  moreover have "set_mset (sum_list (map mset ts)) = \<Union> (set ` set ts)"
    by (induction ts) simp_all
  ultimately show ?thesis by simp
qed

lemma probed_Nil: "(probed es = []) = (\<forall>c n. Probe c n \<notin> set es)"
  by (induction es rule: probed.induct) auto

lemma probed_schedule:
  assumes "sched \<in> schedules d w"
  shows "probed sched = []"
proof -
  have "Probe c n \<notin> set sched" for c n
  proof
    assume "Probe c n \<in> set sched"
    with assms obtain c' where "Probe c n \<in> set (checkStorageClassOfTenantCluster d w c')"
      by (auto simp: schedules_def goroutines_def set_interleavings)
    with probed_check [of d w c'] show False by (simp add: probed_Nil)
  qed
  then show ?thesis by (simp add: probed_Nil)
qed

lemma PatrollerDo_Probes:
  assumes sched: "sched \<in> schedules d w"
    and ne: "MultiClusterController_GetClusterNames w \<noteq> []"
  shows "Probes (PatrollerDo d sched w) =
     Probes w @
     (case storageclassLister_List w of
        Inl err \<Rightarrow> []
      | Inr ps \<Rightarrow> probed (sweep d w (MultiClusterController_GetClusterNames w) ps))"
proof (cases "storageclassLister_List w")
  case (Inl err)
  from PatrollerDo_listfail [OF ne Inl] Inl show ?thesis
    by (simp add: run_outputs probed_append probed_schedule [OF sched])
next
  case (Inr ps)
  from PatrollerDo_listok [OF ne Inr] Inr show ?thesis
    by (simp add: run_outputs probed_append probed_schedule [OF sched])
qed

lemma mismatches_w0:
  "(\<Sum>c'\<leftarrow>MultiClusterController_GetClusterNames w0.
      case MultiClusterController_List w0 c' of
        Inl err \<Rightarrow> 0
      | Inr items \<Rightarrow> length (filter (mismatched d0 w0) items)) = 2"
  by (simp add: mismatched_def w0_def d0_def sc_def)

lemma w_noclient_facts:
  "MultiClusterController_GetClusterNames w_noclient = [''T1'', ''T2'', ''T3'']"
  "MultiClusterController_List w_noclient ''T1'' =
     Inr [sc ''A'' True ''x'', sc ''C'' False ''x'', sc ''B'' False ''y'', sc ''D'' True ''y'']"
  "storageclassLister_Get w_noclient ''C'' = Inl StatusNotFound"
  "MultiClusterController_GetClusterClient w_noclient ''T1'' = Some (OtherError ''no client'')"
  "DeleteCalls w_noclient = []"
  by (simp_all add: w_noclient_def w0_def)

section \<open>The tenant scanner, one object\<close>

text \<open>
  C1. Tenant \<open>c\<close> lists \<open>xs\<close>, \<open>v\<close>, \<open>ys\<close> in this order and the super master cache
  has an object \<open>p\<close> for the name of \<open>v\<close>. Run alone, the scanner of \<open>c\<close> logs its
  first line, processes \<open>xs\<close>, applies to \<open>v\<close> exactly the following step, and goes on
  with \<open>ys\<close>: nothing changes when the equality check reports no difference; otherwise
  the drift count goes up by exactly one (in \<^verbatim>\<open>uint64\<close> arithmetic), a warning is
  logged, and the upward queue receives exactly the key \<open>c/name\<close> when \<open>p\<close> is public and
  nothing when it is not. In a pass, under every schedule: the drift count at the end is
  the number of listed tenant objects, over all tenants, that are mismatched; the key
  \<open>c/name\<close> is enqueued exactly once when \<open>v\<close> is mismatched and \<open>p\<close> is public, and not
  at all otherwise; and no delete call is sent for \<open>(c, name)\<close>. Cluster names are
  distinct and contain no slash, names are distinct in the list of \<open>c\<close>, a lookup in the
  super master cache returns the object of that name, and the probe of \<open>c\<close> does not
  answer not-found for the listed object.
\<close>

theorem C1_pair_drift_and_remedy:
  assumes sched: "sched \<in> schedules d w"
    and c: "c \<in> set (MultiClusterController_GetClusterNames w)"
    and dc: "distinct (MultiClusterController_GetClusterNames w)"
    and slash: "\<forall>c'\<in>set (MultiClusterController_GetClusterNames w). CHR ''/'' \<notin> set c'"
    and items: "MultiClusterController_List w c = Inr (xs @ v # ys)"
    and dn: "distinct (map Name (xs @ v # ys))"
    and lc: "\<forall>n q. storageclassLister_Get w n = Inr q \<longrightarrow> Name q = n"
    and p: "storageclassLister_Get w (Name v) = Inr p"
    and tc: "MultiClusterController_Get w c (Name v) \<noteq> Some StatusNotFound"
  shows "run (checkStorageClassOfTenantCluster d w c) w =
           (let w' = run (Klog (V_Infof 4 ''check storageclass consistency in cluster %s''
                                  [Str c]) # checkItems d w c xs) w
            in run (checkItems d w c ys)
                 (case CheckStorageClassEquality d p v of
                    None \<Rightarrow> w'
                  | Some u \<Rightarrow>
                      w'\<lparr>numMissMatchedStorageClasses := numMissMatchedStorageClasses w' + 1,
                         UpwardQueue := UpwardQueue w' @
                           (if publicStorageClass d p then [c @ ''/'' @ Name p] else []),
                         klog := klog w' @
                           [Warningf ''spec of storageClass %v diff in super&tenant master''
                              [Str (Name v)]]\<rparr>)) \<and>
         numMissMatchedStorageClasses (PatrollerDo d sched w) =
           of_nat (\<Sum>c'\<leftarrow>MultiClusterController_GetClusterNames w.
              case MultiClusterController_List w c' of
                Inl err \<Rightarrow> 0
              | Inr items \<Rightarrow> length (filter (mismatched d w) items)) \<and>
         mismatched d w v = (CheckStorageClassEquality d p v \<noteq> None) \<and>
         count_list (drop (length (UpwardQueue w)) (UpwardQueue (PatrollerDo d sched w)))
             (c @ ''/'' @ Name v) =
           (if CheckStorageClassEquality d p v \<noteq> None \<and> publicStorageClass d p
            then 1 else 0) \<and>
         count_list (drop (length (DeleteCalls w)) (DeleteCalls (PatrollerDo d sched w)))
             (c, Name v, pol) = 0"
proof (intro conjI)
  from c have ne: "MultiClusterController_GetClusterNames w \<noteq> []" by auto
  let ?cs = "MultiClusterController_GetClusterNames w"
  show "run (checkStorageClassOfTenantCluster d w c) w =
           (let w' = run (Klog (V_Infof 4 ''check storageclass consistency in cluster %s''
                                  [Str c]) # checkItems d w c xs) w
            in run (checkItems d w c ys)
                 (case CheckStorageClassEquality d p v of
                    None \<Rightarrow> w'
                  | Some u \<Rightarrow>
                      w'\<lparr>numMissMatchedStorageClasses := numMissMatchedStorageClasses w' + 1,
                         UpwardQueue := UpwardQueue w' @
                           (if publicStorageClass d p then [c @ ''/'' @ Name p] else []),
                         klog := klog w' @
                           [Warningf ''spec of storageClass %v diff in super&tenant master''
                              [Str (Name v)]]\<rparr>))"
  proof -
    have "checkStorageClassOfTenantCluster d w c =
          (Klog (V_Infof 4 ''check storageclass consistency in cluster %s'' [Str c]) #
           checkItems d w c xs) @ checkItem d w c v @ checkItems d w c ys"
      by (simp add: checkStorageClassOfTenantCluster_def items checkItems_append)
    then show ?thesis
      by (simp only: run_append run_checkItem_pair [OF p] Let_def)
  qed
  show "numMissMatchedStorageClasses (PatrollerDo d sched w) =
           of_nat (\<Sum>c'\<leftarrow>?cs.
              case MultiClusterController_List w c' of
                Inl err \<Rightarrow> 0
              | Inr items \<Rightarrow> length (filter (mismatched d w) items))"
    by (simp only: PatrollerDo_numMiss [OF ne] added_schedule_mismatched [OF sched])
  show "mismatched d w v = (CheckStorageClassEquality d p v \<noteq> None)"
    by (simp add: mismatched_def p)
  show "count_list (drop (length (UpwardQueue w)) (UpwardQueue (PatrollerDo d sched w)))
             (c @ ''/'' @ Name v) =
           (if CheckStorageClassEquality d p v \<noteq> None \<and> publicStorageClass d p
            then 1 else 0)"
  proof -
    define S where "S = count_list sched (AddToQueue (c @ ''/'' @ Name v))"
    define W where "W = (case storageclassLister_List w of
              Inl err \<Rightarrow> 0
            | Inr ps \<Rightarrow> count_list (sweep d w ?cs ps) (AddToQueue (c @ ''/'' @ Name v)))"
    have total: "count_list (drop (length (UpwardQueue w))
        (UpwardQueue (PatrollerDo d sched w))) (c @ ''/'' @ Name v) = S + W"
      by (simp add: S_def W_def PatrollerDo_UpwardQueue [OF ne] count_queued split: sum.split)
    have vin: "v \<in> set (xs @ v # ys)" by simp
    have "S = count_list (checkStorageClassOfTenantCluster d w c)
                (AddToQueue (c @ ''/'' @ Name v))"
      unfolding S_def by (rule count_schedule_key [OF sched c dc slash])
    also have "\<dots> = (\<Sum>v'\<leftarrow>xs @ v # ys. if Name v' = Name v then
        (case storageclassLister_Get w (Name v) of
           Inl err \<Rightarrow> 0
         | Inr q \<Rightarrow> if CheckStorageClassEquality d q v' \<noteq> None \<and> publicStorageClass d q
                     then 1 else 0)
      else 0)"
      by (rule count_check_own_key [OF lc items])
    also have "\<dots> = (case storageclassLister_Get w (Name v) of
           Inl err \<Rightarrow> 0
         | Inr q \<Rightarrow> if CheckStorageClassEquality d q v \<noteq> None \<and> publicStorageClass d q
                     then 1 else 0)"
      by (rule sum_list_distinct_pick [OF dn vin])
    finally have S: "S = (if CheckStorageClassEquality d p v \<noteq> None \<and> publicStorageClass d p
                         then 1 else 0)"
      by (simp add: p)
    have W: "W = 0"
    proof (cases "storageclassLister_List w")
      case (Inl err)
      then show ?thesis by (simp add: W_def)
    next
      case (Inr ps)
      have "W = (\<Sum>q\<leftarrow>ps. if Name q = Name v then
          (if publicStorageClass d q \<and>
              MultiClusterController_Get w c (Name v) = Some StatusNotFound
           then 1 else 0) else 0)"
        using Inr count_sweep_AddToQueue [OF c dc slash, of d w ps "Name v"]
        by (simp add: W_def)
      also have "\<dots> = (\<Sum>q\<leftarrow>ps. 0)"
        by (rule sum_list_cong_set) (use tc in simp)
      finally show ?thesis by simp
    qed
    show ?thesis unfolding total S W by simp
  qed
  show "count_list (drop (length (DeleteCalls w)) (DeleteCalls (PatrollerDo d sched w)))
             (c, Name v, pol) = 0"
    by (simp add: PatrollerDo_DeleteCalls [OF ne] count_deleted
        count_schedule_Delete_found [OF sched p])
qed

theorem C1_pair_drift_and_remedy_witness:
  "sequential d0 w0 \<in> schedules d0 w0 \<and>
   ''T1'' \<in> set (MultiClusterController_GetClusterNames w0) \<and>
   distinct (MultiClusterController_GetClusterNames w0) \<and>
   MultiClusterController_List w0 ''T1'' =
     Inr ([sc ''A'' True ''x'', sc ''C'' False ''x'', sc ''B'' False ''y''] @
          sc ''D'' True ''y'' # []) \<and>
   storageclassLister_Get w0 (Name (sc ''D'' True ''y'')) = Inr (sc ''D'' True ''x'') \<and>
   MultiClusterController_Get w0 ''T1'' (Name (sc ''D'' True ''y'')) \<noteq> Some StatusNotFound \<and>
   mismatched d0 w0 (sc ''D'' True ''y'') \<and>
   UpwardQueue (run (checkStorageClassOfTenantCluster d0 w0 ''T1'') w0) = [''T1/D''] \<and>
   numMissMatchedStorageClasses (run (checkStorageClassOfTenantCluster d0 w0 ''T1'') w0) = 2 \<and>
   numMissMatchedStorageClasses (PatrollerDo d0 (sequential d0 w0) w0) = 2 \<and>
   count_list (drop (length (UpwardQueue w0))
       (UpwardQueue (PatrollerDo d0 (sequential d0 w0) w0))) ''T1/D'' = 1 \<and>
   count_list (drop (length (DeleteCalls w0))
       (DeleteCalls (PatrollerDo d0 (sequential d0 w0) w0)))
     (''T1'', ''D'', DeletePropagationBackground) = 0 \<and>
   MultiClusterController_List w0 ''T1'' =
     Inr ([sc ''A'' True ''x'', sc ''C'' False ''x''] @
          sc ''B'' False ''y'' # [sc ''D'' True ''y'']) \<and>
   storageclassLister_Get w0 (Name (sc ''B'' False ''y'')) = Inr (sc ''B'' False ''x'') \<and>
   mismatched d0 w0 (sc ''B'' False ''y'') \<and>
   count_list (drop (length (UpwardQueue w0))
       (UpwardQueue (PatrollerDo d0 (sequential d0 w0) w0))) ''T1/B'' = 0 \<and>
   MultiClusterController_List w0 ''T1'' =
     Inr ([] @ sc ''A'' True ''x'' #
          [sc ''C'' False ''x'', sc ''B'' False ''y'', sc ''D'' True ''y'']) \<and>
   storageclassLister_Get w0 (Name (sc ''A'' True ''x'')) = Inr (sc ''A'' True ''x'') \<and>
   \<not> mismatched d0 w0 (sc ''A'' True ''x'') \<and>
   count_list (drop (length (UpwardQueue w0))
       (UpwardQueue (PatrollerDo d0 (sequential d0 w0) w0))) ''T1/A'' = 0"
proof -
  let ?A = "sc ''A'' True ''x''" and ?C = "sc ''C'' False ''x''"
  let ?B = "sc ''B'' False ''y''" and ?D = "sc ''D'' True ''y''"
  have c: "''T1'' \<in> set (MultiClusterController_GetClusterNames w0)"
    by (simp add: w0_facts(1))
  have iD: "MultiClusterController_List w0 ''T1'' = Inr ([?A, ?C, ?B] @ ?D # [])"
    and iB: "MultiClusterController_List w0 ''T1'' = Inr ([?A, ?C] @ ?B # [?D])"
    and iA: "MultiClusterController_List w0 ''T1'' = Inr ([] @ ?A # [?C, ?B, ?D])"
    by (simp_all add: w0_def)
  have dD: "distinct (map Name ([?A, ?C, ?B] @ ?D # []))"
    and dB: "distinct (map Name ([?A, ?C] @ ?B # [?D]))"
    and dA: "distinct (map Name ([] @ ?A # [?C, ?B, ?D]))"
    by (simp_all add: sc_def)
  have pD: "storageclassLister_Get w0 (Name ?D) = Inr (sc ''D'' True ''x'')"
    and pB: "storageclassLister_Get w0 (Name ?B) = Inr (sc ''B'' False ''x'')"
    and pA: "storageclassLister_Get w0 (Name ?A) = Inr (sc ''A'' True ''x'')"
    by (simp_all add: w0_def sc_def)
  have tD: "MultiClusterController_Get w0 ''T1'' (Name ?D) \<noteq> Some StatusNotFound"
    and tB: "MultiClusterController_Get w0 ''T1'' (Name ?B) \<noteq> Some StatusNotFound"
    and tA: "MultiClusterController_Get w0 ''T1'' (Name ?A) \<noteq> Some StatusNotFound"
    by (simp_all add: w0_def sc_def)
  have eq: "CheckStorageClassEquality d0 (sc ''D'' True ''x'') ?D \<noteq> None"
    "CheckStorageClassEquality d0 (sc ''B'' False ''x'') ?B \<noteq> None"
    "CheckStorageClassEquality d0 (sc ''A'' True ''x'') ?A = None"
    by (simp_all add: d0_def sc_def)
  note hyps = sequential_schedule [of d0 w0] c w0_wellformed(1) w0_wellformed(2)
  note D = C1_pair_drift_and_remedy [OF hyps iD dD w0_wellformed(5) pD tD,
      where pol = DeletePropagationBackground]
  note B = C1_pair_drift_and_remedy [OF hyps iB dB w0_wellformed(5) pB tB,
      where pol = DeletePropagationBackground]
  note A = C1_pair_drift_and_remedy [OF hyps iA dA w0_wellformed(5) pA tA,
      where pol = DeletePropagationBackground]
  have q: "UpwardQueue (run (checkStorageClassOfTenantCluster d0 w0 ''T1'') w0) = [''T1/D'']"
    unfolding D [THEN conjunct1]
    by (simp add: Let_def run_outputs checkItem_def w0_def d0_def sc_def)
  have m: "numMissMatchedStorageClasses
             (run (checkStorageClassOfTenantCluster d0 w0 ''T1'') w0) = 2"
    unfolding D [THEN conjunct1]
    by (simp add: Let_def run_outputs checkItem_def w0_def d0_def sc_def)
  have n: "numMissMatchedStorageClasses (PatrollerDo d0 (sequential d0 w0) w0) = 2"
    using D [THEN conjunct2, THEN conjunct1] by (simp add: mismatches_w0)
  have mD: "mismatched d0 w0 ?D" and mB: "mismatched d0 w0 ?B" and mA: "\<not> mismatched d0 w0 ?A"
    using D [THEN conjunct2, THEN conjunct2, THEN conjunct1]
      B [THEN conjunct2, THEN conjunct2, THEN conjunct1]
      A [THEN conjunct2, THEN conjunct2, THEN conjunct1] eq
    by simp_all
  have qD: "count_list (drop (length (UpwardQueue w0))
       (UpwardQueue (PatrollerDo d0 (sequential d0 w0) w0))) ''T1/D'' = 1"
    using D [THEN conjunct2, THEN conjunct2, THEN conjunct2, THEN conjunct1] eq
    by (simp add: sc_facts)
  have qB: "count_list (drop (length (UpwardQueue w0))
       (UpwardQueue (PatrollerDo d0 (sequential d0 w0) w0))) ''T1/B'' = 0"
    using B [THEN conjunct2, THEN conjunct2, THEN conjunct2, THEN conjunct1] eq
    by (simp add: sc_facts)
  have qA: "count_list (drop (length (UpwardQueue w0))
       (UpwardQueue (PatrollerDo d0 (sequential d0 w0) w0))) ''T1/A'' = 0"
    using A [THEN conjunct2, THEN conjunct2, THEN conjunct2, THEN conjunct1] eq
    by (simp add: sc_facts)
  have del: "count_list (drop (length (DeleteCalls w0))
       (DeleteCalls (PatrollerDo d0 (sequential d0 w0) w0)))
     (''T1'', ''D'', DeletePropagationBackground) = 0"
    using D [THEN conjunct2, THEN conjunct2, THEN conjunct2, THEN conjunct2]
    by (simp add: sc_facts)
  show ?thesis
    by (intro conjI sequential_schedule c w0_wellformed(1) iD pD tD mD q m n qD del
        iB pB mB qB iA pA mA qA)
qed

section \<open>The tenant scanner, orphans\<close>

text \<open>
  C2, as amended. Within one pass, under every schedule, for a tenant object of cluster
  \<open>c\<close> whose name the super master cache does not know (the lookup returns not-found),
  the default deletion policy being cascading: when a clientset for \<open>c\<close> is obtained,
  exactly one delete call for \<open>(c, name)\<close> is sent, with the default policy, and none with
  another policy, in particular none that is not cascading; when the clientset cannot be
  obtained, that failure is logged and no delete call is sent for the object. A delete
  call that fails is logged, and every object of the list is processed whatever the delete
  calls answer: the scanner goes on to the next object either way. Cluster names are
  distinct, and so are the names within the list of \<open>c\<close>.
\<close>

theorem C2_orphan_delete:
  assumes sched: "sched \<in> schedules d w"
    and c: "c \<in> set (MultiClusterController_GetClusterNames w)"
    and dc: "distinct (MultiClusterController_GetClusterNames w)"
    and items: "MultiClusterController_List w c = Inr items"
    and v: "v \<in> set items"
    and dn: "distinct (map Name items)"
    and orphan: "storageclassLister_Get w (Name v) = Inl StatusNotFound"
    and casc: "cascading (DefaultDeletionPolicy d)"
  shows "count_list (drop (length (DeleteCalls w)) (DeleteCalls (PatrollerDo d sched w)))
           (c, Name v, pol) =
         (if MultiClusterController_GetClusterClient w c = None \<and> pol = DefaultDeletionPolicy d
          then 1 else 0) \<and>
         (\<not> cascading pol \<longrightarrow>
            count_list (drop (length (DeleteCalls w)) (DeleteCalls (PatrollerDo d sched w)))
              (c, Name v, pol) = 0) \<and>
         (\<forall>err. MultiClusterController_GetClusterClient w c = Some err \<longrightarrow>
            Errorf ''error getting cluster %s clientset: %v'' [Str c, Err err]
              \<in> set (klog (PatrollerDo d sched w))) \<and>
         (\<forall>err. MultiClusterController_GetClusterClient w c = None \<longrightarrow>
            StorageClasses_Delete w c (Name v) (DefaultDeletionPolicy d) = Some err \<longrightarrow>
            Errorf ''error deleting storageclass %v in cluster %s: %v''
              [Str (Name v), Str c, Err err] \<in> set (klog (PatrollerDo d sched w))) \<and>
         (\<forall>v'\<in>set items. subseq (checkItem d w c v') sched)"
proof -
  let ?cs = "MultiClusterController_GetClusterNames w"
  let ?f = "\<lambda>c'. count_list (checkStorageClassOfTenantCluster d w c') (Delete c (Name v) pol)"
  from c have ne: "?cs \<noteq> []" by auto
  have other: "?f c' = (if id c' = id c then ?f c' else 0)" for c'
    by (simp add: count_check_Delete count_checkItem_Delete sum_list_0 split: sum.split)
  have "count_list (deleted sched) (c, Name v, pol) = (\<Sum>c'\<leftarrow>?cs. ?f c')"
    by (simp add: count_deleted count_schedule [OF sched])
  also have "\<dots> = (\<Sum>c'\<leftarrow>?cs. if id c' = id c then ?f c' else 0)"
    using other by simp
  also have "\<dots> = ?f c"
    using sum_list_distinct_pick [of id ?cs c ?f] dc c by simp
  also have "\<dots> = (\<Sum>v'\<leftarrow>items. if Name v' = Name v then
       (if MultiClusterController_GetClusterClient w c = None \<and> pol = DefaultDeletionPolicy d
        then 1 else 0) else 0)"
    using orphan by (auto simp: count_check_Delete items count_checkItem_Delete
        intro!: arg_cong [where f = sum_list] map_cong)
  also have "\<dots> = (if MultiClusterController_GetClusterClient w c = None \<and>
                       pol = DefaultDeletionPolicy d then 1 else 0)"
    using sum_list_distinct_pick [OF dn v] by simp
  finally have count: "count_list (drop (length (DeleteCalls w))
      (DeleteCalls (PatrollerDo d sched w))) (c, Name v, pol) =
    (if MultiClusterController_GetClusterClient w c = None \<and> pol = DefaultDeletionPolicy d
     then 1 else 0)"
    by (simp add: PatrollerDo_DeleteCalls [OF ne])
  have noncasc: "\<not> cascading pol \<longrightarrow>
      count_list (drop (length (DeleteCalls w)) (DeleteCalls (PatrollerDo d sched w)))
        (c, Name v, pol) = 0"
    unfolding count using casc by auto
  have client: "Errorf ''error getting cluster %s clientset: %v'' [Str c, Err err]
                  \<in> set (klog (PatrollerDo d sched w))"
    if "MultiClusterController_GetClusterClient w c = Some err" for err
  proof -
    from that orphan
    have "Klog (Errorf ''error getting cluster %s clientset: %v'' [Str c, Err err])
            \<in> set (checkItem d w c v)"
      by (simp add: checkItem_def)
    from item_logs [OF sched c items v this] show ?thesis .
  qed
  have del: "Errorf ''error deleting storageclass %v in cluster %s: %v''
               [Str (Name v), Str c, Err err] \<in> set (klog (PatrollerDo d sched w))"
    if "MultiClusterController_GetClusterClient w c = None"
      "StorageClasses_Delete w c (Name v) (DefaultDeletionPolicy d) = Some err" for err
  proof -
    from that orphan
    have "Klog (Errorf ''error deleting storageclass %v in cluster %s: %v''
               [Str (Name v), Str c, Err err]) \<in> set (checkItem d w c v)"
      by (simp add: checkItem_def)
    from item_logs [OF sched c items v this] show ?thesis .
  qed
  have cont: "subseq (checkItem d w c v') sched" if "v' \<in> set items" for v'
  proof -
    from sched c have "subseq (checkStorageClassOfTenantCluster d w c) sched"
      by (simp add: schedules_def goroutines_def subseq_interleavings)
    with subseq_checkItem [OF items that, of d] show ?thesis
      by (rule subseq_order.trans)
  qed
  from count noncasc client del cont show ?thesis by blast
qed

theorem C2_orphan_delete_witness:
  "sequential d0 w0 \<in> schedules d0 w0 \<and>
   ''T1'' \<in> set (MultiClusterController_GetClusterNames w0) \<and>
   distinct (MultiClusterController_GetClusterNames w0) \<and>
   MultiClusterController_List w0 ''T1'' =
     Inr [sc ''A'' True ''x'', sc ''C'' False ''x'', sc ''B'' False ''y'', sc ''D'' True ''y''] \<and>
   sc ''C'' False ''x'' \<in>
     set [sc ''A'' True ''x'', sc ''C'' False ''x'', sc ''B'' False ''y'', sc ''D'' True ''y''] \<and>
   distinct (map Name
     [sc ''A'' True ''x'', sc ''C'' False ''x'', sc ''B'' False ''y'', sc ''D'' True ''y'']) \<and>
   storageclassLister_Get w0 (Name (sc ''C'' False ''x'')) = Inl StatusNotFound \<and>
   cascading (DefaultDeletionPolicy d0) \<and>
   MultiClusterController_GetClusterClient w0 ''T1'' = None \<and>
   count_list (drop (length (DeleteCalls w0))
       (DeleteCalls (PatrollerDo d0 (sequential d0 w0) w0)))
     (''T1'', ''C'', DeletePropagationBackground) = 1 \<and>
   count_list (drop (length (DeleteCalls w0))
       (DeleteCalls (PatrollerDo d0 (sequential d0 w0) w0)))
     (''T1'', ''C'', DeletePropagationForeground) = 0 \<and>
   count_list (drop (length (DeleteCalls w0))
       (DeleteCalls (PatrollerDo d0 (sequential d0 w0) w0)))
     (''T1'', ''C'', DeletePropagationOrphan) = 0 \<and>
   subseq (checkItem d0 w0 ''T1'' (sc ''D'' True ''y'')) (sequential d0 w0) \<and>
   sequential d0 w_noclient \<in> schedules d0 w_noclient \<and>
   MultiClusterController_GetClusterClient w_noclient ''T1'' = Some (OtherError ''no client'') \<and>
   count_list (drop (length (DeleteCalls w_noclient))
       (DeleteCalls (PatrollerDo d0 (sequential d0 w_noclient) w_noclient)))
     (''T1'', ''C'', DeletePropagationBackground) = 0 \<and>
   Errorf ''error getting cluster %s clientset: %v''
       [Str ''T1'', Err (OtherError ''no client'')]
     \<in> set (klog (PatrollerDo d0 (sequential d0 w_noclient) w_noclient))"
proof -
  let ?items =
    "[sc ''A'' True ''x'', sc ''C'' False ''x'', sc ''B'' False ''y'', sc ''D'' True ''y'']"
  have h2: "''T1'' \<in> set (MultiClusterController_GetClusterNames w0)" by (simp add: w0_def)
  have h3: "distinct (MultiClusterController_GetClusterNames w0)" by (simp add: w0_def)
  have h4: "MultiClusterController_List w0 ''T1'' = Inr ?items" by (simp add: w0_def)
  have h5: "sc ''C'' False ''x'' \<in> set ?items" and h5': "sc ''D'' True ''y'' \<in> set ?items"
    by simp_all
  have h6: "distinct (map Name ?items)" by (simp add: sc_def)
  have h7: "storageclassLister_Get w0 (Name (sc ''C'' False ''x'')) = Inl StatusNotFound"
    by (simp add: w0_def sc_def)
  have h8: "cascading (DefaultDeletionPolicy d0)" by (simp add: cascading_def d0_def)
  have g: "MultiClusterController_GetClusterClient w0 ''T1'' = None" by (simp add: w0_def)
  have p: "DefaultDeletionPolicy d0 = DeletePropagationBackground" by (simp add: d0_def)
  have k2: "''T1'' \<in> set (MultiClusterController_GetClusterNames w_noclient)"
    and k3: "distinct (MultiClusterController_GetClusterNames w_noclient)"
    by (simp_all add: w_noclient_facts(1))
  have k7: "storageclassLister_Get w_noclient (Name (sc ''C'' False ''x'')) = Inl StatusNotFound"
    by (simp add: w_noclient_facts(3) sc_facts)
  note a = C2_orphan_delete [OF sequential_schedule [of d0 w0] h2 h3 h4 h5 h6 h7 h8]
  note b = C2_orphan_delete [OF sequential_schedule [of d0 w_noclient] k2 k3
      w_noclient_facts(2) h5 h6 k7 h8]
  have a1: "count_list (drop (length (DeleteCalls w0))
       (DeleteCalls (PatrollerDo d0 (sequential d0 w0) w0)))
     (''T1'', ''C'', DeletePropagationBackground) = 1"
    using a [where pol = DeletePropagationBackground, THEN conjunct1]
    by (simp add: sc_facts g p)
  have a2: "count_list (drop (length (DeleteCalls w0))
       (DeleteCalls (PatrollerDo d0 (sequential d0 w0) w0)))
     (''T1'', ''C'', DeletePropagationForeground) = 0"
    using a [where pol = DeletePropagationForeground, THEN conjunct1]
    by (simp add: sc_facts g p)
  have a3: "count_list (drop (length (DeleteCalls w0))
       (DeleteCalls (PatrollerDo d0 (sequential d0 w0) w0)))
     (''T1'', ''C'', DeletePropagationOrphan) = 0"
    using a [where pol = DeletePropagationOrphan, THEN conjunct2, THEN conjunct1]
    by (simp add: sc_facts cascading_def)
  note a4 = a [where pol = DeletePropagationBackground, THEN conjunct2, THEN conjunct2,
      THEN conjunct2, THEN conjunct2, rule_format, OF h5']
  have b1: "count_list (drop (length (DeleteCalls w_noclient))
       (DeleteCalls (PatrollerDo d0 (sequential d0 w_noclient) w_noclient)))
     (''T1'', ''C'', DeletePropagationBackground) = 0"
    using b [where pol = DeletePropagationBackground, THEN conjunct1]
    by (simp add: sc_facts w_noclient_facts(4))
  note b2 = b [where pol = DeletePropagationBackground, THEN conjunct2, THEN conjunct2,
      THEN conjunct1, rule_format, OF w_noclient_facts(4)]
  show ?thesis
    by (intro conjI sequential_schedule h2 h3 h4 h5 h6 h7 h8 g a1 a2 a3 a4
        w_noclient_facts(4) b1 b2)
qed

text \<open>
  C2, as stated, fails: in the world where no clientset can be obtained, tenant T1 lists
  the object C, the super master cache answers not-found for C, and the pass sends no
  delete call at all.
\<close>

theorem C2_counterexample:
  "sequential d0 w_noclient \<in> schedules d0 w_noclient \<and>
   MultiClusterController_List w_noclient ''T1'' =
     Inr [sc ''A'' True ''x'', sc ''C'' False ''x'', sc ''B'' False ''y'', sc ''D'' True ''y''] \<and>
   storageclassLister_Get w_noclient (Name (sc ''C'' False ''x'')) = Inl StatusNotFound \<and>
   DeleteCalls (PatrollerDo d0 (sequential d0 w_noclient) w_noclient) = []"
proof -
  have s: "deleted (sequential d0 w_noclient) = []"
    by (simp add: sequential_def goroutines_def checkStorageClassOfTenantCluster_def
        checkItem_def w_noclient_def w0_def d0_def sc_def)
  have ne: "MultiClusterController_GetClusterNames w_noclient \<noteq> []"
    by (simp add: w_noclient_def w0_def)
  have "DeleteCalls (PatrollerDo d0 (sequential d0 w_noclient) w_noclient) = []"
    by (simp add: PatrollerDo_DeleteCalls [OF ne] s) (simp add: w_noclient_def w0_def)
  moreover have "MultiClusterController_List w_noclient ''T1'' =
     Inr [sc ''A'' True ''x'', sc ''C'' False ''x'', sc ''B'' False ''y'', sc ''D'' True ''y'']"
    by (simp add: w_noclient_def w0_def)
  moreover have "storageclassLister_Get w_noclient (Name (sc ''C'' False ''x'')) =
     Inl StatusNotFound"
    by (simp add: w_noclient_def w0_def sc_def)
  ultimately show ?thesis by (simp add: sequential_schedule)
qed

section \<open>The sweep over the super master objects\<close>

text \<open>
  C3. In a pass whose list call of the super master cache succeeds with \<open>ps\<close>, under every
  schedule, the keys enqueued after the scanners are those of the sweep, and for an
  object \<open>p\<close> of \<open>ps\<close> and a cluster \<open>c\<close> of the registry: among them the key
  \<open>c/name\<close> occurs exactly once when \<open>p\<close> is public and the probe of \<open>c\<close> answers
  not-found, and not at all otherwise; the pass probes \<open>c\<close> for the name exactly once when
  \<open>p\<close> is public and never when it is not; and when the probe of a public object fails
  with another error, that error is in the log of the pass (and, by the first part,
  nothing is enqueued). Cluster names are distinct and contain no slash, the names of the
  listed objects are distinct.
\<close>

theorem C3_sweep_gap_remedy:
  assumes sched: "sched \<in> schedules d w"
    and ps: "storageclassLister_List w = Inr ps"
    and p: "p \<in> set ps"
    and c: "c \<in> set (MultiClusterController_GetClusterNames w)"
    and dc: "distinct (MultiClusterController_GetClusterNames w)"
    and dn: "distinct (map Name ps)"
    and slash: "\<forall>c'\<in>set (MultiClusterController_GetClusterNames w). CHR ''/'' \<notin> set c'"
  shows "take (length (UpwardQueue w) + length (queued sched))
             (UpwardQueue (PatrollerDo d sched w)) = UpwardQueue w @ queued sched \<and>
         count_list (drop (length (UpwardQueue w) + length (queued sched))
             (UpwardQueue (PatrollerDo d sched w))) (c @ ''/'' @ Name p) =
           (if publicStorageClass d p \<and>
               MultiClusterController_Get w c (Name p) = Some StatusNotFound
            then 1 else 0) \<and>
         count_list (drop (length (Probes w)) (Probes (PatrollerDo d sched w))) (c, Name p) =
           (if publicStorageClass d p then 1 else 0) \<and>
         (\<forall>m. publicStorageClass d p \<and>
               MultiClusterController_Get w c (Name p) = Some (OtherError m) \<longrightarrow>
               Errorf ''fail to get storageclass from cluster %s: %v''
                 [Str c, Err (OtherError m)] \<in> set (klog (PatrollerDo d sched w)))"
proof (intro conjI allI impI)
  from c have ne: "MultiClusterController_GetClusterNames w \<noteq> []" by auto
  let ?cs = "MultiClusterController_GetClusterNames w"
  have q: "UpwardQueue (PatrollerDo d sched w) =
             (UpwardQueue w @ queued sched) @ queued (sweep d w ?cs ps)"
    by (simp add: PatrollerDo_UpwardQueue [OF ne] ps)
  show "take (length (UpwardQueue w) + length (queued sched))
             (UpwardQueue (PatrollerDo d sched w)) = UpwardQueue w @ queued sched"
    unfolding q by simp
  show "count_list (drop (length (UpwardQueue w) + length (queued sched))
             (UpwardQueue (PatrollerDo d sched w))) (c @ ''/'' @ Name p) =
           (if publicStorageClass d p \<and>
               MultiClusterController_Get w c (Name p) = Some StatusNotFound
            then 1 else 0)"
    unfolding q
    using sum_list_distinct_pick [OF dn p]
      count_sweep_AddToQueue [OF c dc slash, of d w ps "Name p"]
    by (simp add: count_queued)
  show "count_list (drop (length (Probes w)) (Probes (PatrollerDo d sched w))) (c, Name p) =
           (if publicStorageClass d p then 1 else 0)"
    using sum_list_distinct_pick [OF dn p]
      count_sweep_Probe [OF c dc, of d w ps "Name p"]
    by (simp add: PatrollerDo_Probes [OF sched ne] ps count_probed)
  fix m
  assume "publicStorageClass d p \<and>
          MultiClusterController_Get w c (Name p) = Some (OtherError m)"
  then have "Errorf ''fail to get storageclass from cluster %s: %v''
                 [Str c, Err (OtherError m)] \<in> set (logged (sweep d w ?cs ps))"
    using logged_sweep_mem [OF p c] by simp
  from sweep_logs [OF ne ps this]
  show "Errorf ''fail to get storageclass from cluster %s: %v''
                 [Str c, Err (OtherError m)] \<in> set (klog (PatrollerDo d sched w))" .
qed

theorem C3_sweep_gap_remedy_witness:
  "sequential d0 w0 \<in> schedules d0 w0 \<and>
   storageclassLister_List w0 =
     Inr [sc ''A'' True ''x'', sc ''B'' False ''x'', sc ''D'' True ''x'', sc ''E'' True ''x''] \<and>
   ''T1'' \<in> set (MultiClusterController_GetClusterNames w0) \<and>
   distinct (MultiClusterController_GetClusterNames w0) \<and>
   distinct (map Name
     [sc ''A'' True ''x'', sc ''B'' False ''x'', sc ''D'' True ''x'', sc ''E'' True ''x'']) \<and>
   UpwardQueue (PatrollerDo d0 (sequential d0 w0) w0) =
     [''T1/D'', ''T2/A'', ''T2/D'', ''T1/E'', ''T2/E''] \<and>
   length (UpwardQueue w0) + length (queued (sequential d0 w0)) = 1 \<and>
   count_list (drop (length (UpwardQueue w0) + length (queued (sequential d0 w0)))
       (UpwardQueue (PatrollerDo d0 (sequential d0 w0) w0))) ''T1/E'' = 1 \<and>
   count_list (drop (length (Probes w0)) (Probes (PatrollerDo d0 (sequential d0 w0) w0)))
     (''T1'', ''E'') = 1 \<and>
   count_list (drop (length (UpwardQueue w0) + length (queued (sequential d0 w0)))
       (UpwardQueue (PatrollerDo d0 (sequential d0 w0) w0))) ''T1/B'' = 0 \<and>
   count_list (drop (length (Probes w0)) (Probes (PatrollerDo d0 (sequential d0 w0) w0)))
     (''T1'', ''B'') = 0 \<and>
   count_list (drop (length (UpwardQueue w0) + length (queued (sequential d0 w0)))
       (UpwardQueue (PatrollerDo d0 (sequential d0 w0) w0))) ''T3/A'' = 0 \<and>
   count_list (drop (length (Probes w0)) (Probes (PatrollerDo d0 (sequential d0 w0) w0)))
     (''T3'', ''A'') = 1 \<and>
   Errorf ''fail to get storageclass from cluster %s: %v''
       [Str ''T3'', Err (OtherError ''cache not ready'')]
     \<in> set (klog (PatrollerDo d0 (sequential d0 w0) w0))"
proof -
  let ?ps = "[sc ''A'' True ''x'', sc ''B'' False ''x'', sc ''D'' True ''x'', sc ''E'' True ''x'']"
  have pE: "sc ''E'' True ''x'' \<in> set ?ps" and pB: "sc ''B'' False ''x'' \<in> set ?ps"
    and pA: "sc ''A'' True ''x'' \<in> set ?ps" by simp_all
  have c1: "''T1'' \<in> set (MultiClusterController_GetClusterNames w0)"
    and c3: "''T3'' \<in> set (MultiClusterController_GetClusterNames w0)"
    by (simp_all add: w0_facts(1))
  have dn: "distinct (map Name ?ps)" by (simp add: sc_facts)
  have l: "length (UpwardQueue w0) + length (queued (sequential d0 w0)) = 1"
    by (simp add: w0_facts(7) sequential_def goroutines_w0)
  note h = sequential_schedule [of d0 w0] w0_facts(2)
  note E = C3_sweep_gap_remedy [OF h pE c1 w0_wellformed(1) dn w0_wellformed(2)]
  note B = C3_sweep_gap_remedy [OF h pB c1 w0_wellformed(1) dn w0_wellformed(2)]
  note A = C3_sweep_gap_remedy [OF h pA c3 w0_wellformed(1) dn w0_wellformed(2)]
  have qE: "count_list (drop (length (UpwardQueue w0) + length (queued (sequential d0 w0)))
       (UpwardQueue (PatrollerDo d0 (sequential d0 w0) w0))) ''T1/E'' = 1"
    using E [THEN conjunct2, THEN conjunct1] by (simp add: sc_facts w0_facts)
  have rE: "count_list (drop (length (Probes w0))
       (Probes (PatrollerDo d0 (sequential d0 w0) w0))) (''T1'', ''E'') = 1"
    using E [THEN conjunct2, THEN conjunct2, THEN conjunct1] by (simp add: sc_facts)
  have qB: "count_list (drop (length (UpwardQueue w0) + length (queued (sequential d0 w0)))
       (UpwardQueue (PatrollerDo d0 (sequential d0 w0) w0))) ''T1/B'' = 0"
    using B [THEN conjunct2, THEN conjunct1] by (simp add: sc_facts w0_facts)
  have rB: "count_list (drop (length (Probes w0))
       (Probes (PatrollerDo d0 (sequential d0 w0) w0))) (''T1'', ''B'') = 0"
    using B [THEN conjunct2, THEN conjunct2, THEN conjunct1] by (simp add: sc_facts)
  have qA: "count_list (drop (length (UpwardQueue w0) + length (queued (sequential d0 w0)))
       (UpwardQueue (PatrollerDo d0 (sequential d0 w0) w0))) ''T3/A'' = 0"
    using A [THEN conjunct2, THEN conjunct1] by (simp add: sc_facts w0_facts)
  have rA: "count_list (drop (length (Probes w0))
       (Probes (PatrollerDo d0 (sequential d0 w0) w0))) (''T3'', ''A'') = 1"
    using A [THEN conjunct2, THEN conjunct2, THEN conjunct1] by (simp add: sc_facts)
  have lA: "Errorf ''fail to get storageclass from cluster %s: %v''
       [Str ''T3'', Err (OtherError ''cache not ready'')]
     \<in> set (klog (PatrollerDo d0 (sequential d0 w0) w0))"
    using A [THEN conjunct2, THEN conjunct2, THEN conjunct2, rule_format,
        of "''cache not ready''"]
    by (simp add: sc_facts w0_facts)
  show ?thesis
    by (intro conjI sequential_schedule w0_facts(2) c1 w0_wellformed(1) dn pass_w0_queue l
        qE rE qB rB qA rA lA)
qed

section \<open>The pass\<close>

text \<open>
  C4, as amended. When the registry knows no tenant cluster, no goroutine is launched (the
  only schedule is the empty one) and the pass only logs one line at info level: no remedy
  is issued, \<open>numMissMatchedStorageClasses\<close> is not reset and the gauge is not set, both
  keep the values they had before the pass.
\<close>

theorem C4_empty_cluster_set:
  assumes "MultiClusterController_GetClusterNames w = []"
  shows "goroutines d w = [] \<and> schedules d w = {[]} \<and>
         PatrollerDo d sched w =
           w\<lparr>klog := klog w @
              [Infof ''super cluster has no tenant control planes, giving up periodic checker: %s''
                 [Str ''storageclass'']]\<rparr>"
  using assms PatrollerDo_empty [OF assms]
  by (simp add: goroutines_def schedules_def)

theorem C4_empty_cluster_set_witness:
  "MultiClusterController_GetClusterNames w_after = [] \<and>
   goroutines d0 w_after = [] \<and> schedules d0 w_after = {[]} \<and>
   PatrollerDo d0 [] w_after =
     w_after\<lparr>klog := klog w_after @
        [Infof ''super cluster has no tenant control planes, giving up periodic checker: %s''
           [Str ''storageclass'']]\<rparr>"
proof -
  have h: "MultiClusterController_GetClusterNames w_after = []" by (simp add: w_after_def)
  from C4_empty_cluster_set [OF h, of d0 "[]"] h show ?thesis by simp
qed

text \<open>
  C4, as stated, fails: after a first pass over \<open>w0\<close> that found two mismatches, a pass
  with an empty tenant cluster set leaves the gauge and the counter at two, not at zero.
\<close>

theorem C4_counterexample:
  "MultiClusterController_GetClusterNames w_after = [] \<and>
   CheckerMissMatchStats (PatrollerDo d0 (sequential d0 w_after) w_after)
     ''MissMatchedStorageClasses'' = Some 2 \<and>
   numMissMatchedStorageClasses (PatrollerDo d0 (sequential d0 w_after) w_after) = 2"
proof -
  have l: "storageclassLister_List w0 =
    Inr [sc ''A'' True ''x'', sc ''B'' False ''x'', sc ''D'' True ''x'', sc ''E'' True ''x'']"
    by (simp add: w0_def)
  have h: "MultiClusterController_GetClusterNames w_after = []" by (simp add: w_after_def)
  have g: "CheckerMissMatchStats w_after ''MissMatchedStorageClasses'' = Some 2"
    by (simp add: w_after_def PatrollerDo_listok [OF w0_clusters l] added_sequential_w0)
  have n: "numMissMatchedStorageClasses w_after = 2"
    by (simp add: w_after_def PatrollerDo_numMiss [OF w0_clusters] added_sequential_w0)
  show ?thesis
    using h g n by (simp add: PatrollerDo_empty [OF h])
qed




text \<open>
  C6. When the list call of a tenant cluster \<open>c\<close> fails, the scanner of \<open>c\<close> only logs the
  error: no delete, no enqueue, no remedy statistic, no increment of the drift count. In
  every schedule of the pass the scanner of every cluster runs to its end; what the
  scanner of another cluster does is the same whatever the list call of \<open>c\<close> answers; and
  the drift count of the pass is the number of increments made by the scanners of the
  other clusters.
\<close>

theorem C6_tenant_list_failure:
  assumes "MultiClusterController_List w c = Inl err"
  shows "run (checkStorageClassOfTenantCluster d w c) w =
           w\<lparr>klog := klog w @
              [Errorf ''error listing storageclass from cluster %s informer cache: %v''
                 [Str c, Err err]]\<rparr> \<and>
         (\<forall>sched\<in>schedules d w. \<forall>c'\<in>set (MultiClusterController_GetClusterNames w).
            subseq (checkStorageClassOfTenantCluster d w c') sched) \<and>
         (\<forall>c' r. c' \<noteq> c \<longrightarrow>
            checkStorageClassOfTenantCluster d
              (w\<lparr>MultiClusterController_List := (MultiClusterController_List w)(c := r)\<rparr>) c' =
            checkStorageClassOfTenantCluster d w c') \<and>
         (\<forall>sched\<in>schedules d w. MultiClusterController_GetClusterNames w \<noteq> [] \<longrightarrow>
            numMissMatchedStorageClasses (PatrollerDo d sched w) =
              of_nat (\<Sum>c'\<leftarrow>filter (\<lambda>c'. c' \<noteq> c) (MultiClusterController_GetClusterNames w).
                 count_list (checkStorageClassOfTenantCluster d w c') (AtomicAddUint64 1)))"
proof (intro conjI ballI allI impI)
  show "run (checkStorageClassOfTenantCluster d w c) w =
           w\<lparr>klog := klog w @
              [Errorf ''error listing storageclass from cluster %s informer cache: %v''
                 [Str c, Err err]]\<rparr>"
    by (simp add: check_listfail [OF assms])
next
  fix sched c'
  assume "sched \<in> schedules d w" "c' \<in> set (MultiClusterController_GetClusterNames w)"
  then show "subseq (checkStorageClassOfTenantCluster d w c') sched"
    by (simp add: schedules_def goroutines_def subseq_interleavings)
next
  fix c' r assume "c' \<noteq> c"
  then show "checkStorageClassOfTenantCluster d
              (w\<lparr>MultiClusterController_List := (MultiClusterController_List w)(c := r)\<rparr>) c' =
            checkStorageClassOfTenantCluster d w c'"
    by (rule check_other_cluster)
next
  fix sched
  assume sched: "sched \<in> schedules d w"
    and ne: "MultiClusterController_GetClusterNames w \<noteq> []"
  let ?f = "\<lambda>c'. count_list (checkStorageClassOfTenantCluster d w c') (AtomicAddUint64 1)"
  have "?f c = 0" by (simp add: check_listfail [OF assms])
  then have "(\<Sum>c'\<leftarrow>filter (\<lambda>c'. c' \<noteq> c) (MultiClusterController_GetClusterNames w). ?f c') =
             (\<Sum>c'\<leftarrow>MultiClusterController_GetClusterNames w. ?f c')"
    by (intro sum_list_map_filter) auto
  then show "numMissMatchedStorageClasses (PatrollerDo d sched w) =
      of_nat (\<Sum>c'\<leftarrow>filter (\<lambda>c'. c' \<noteq> c) (MultiClusterController_GetClusterNames w). ?f c')"
    using added_schedule [OF sched] PatrollerDo_numMiss [OF ne, of d sched]
    by (simp add: goroutines_def comp_def)
qed

theorem C6_tenant_list_failure_witness:
  "MultiClusterController_List w0 ''T3'' = Inl (OtherError ''cache not ready'') \<and>
   run (checkStorageClassOfTenantCluster d0 w0 ''T3'') w0 =
     w0\<lparr>klog := klog w0 @
        [Errorf ''error listing storageclass from cluster %s informer cache: %v''
           [Str ''T3'', Err (OtherError ''cache not ready'')]]\<rparr> \<and>
   sequential d0 w0 \<in> schedules d0 w0 \<and>
   ''T1'' \<in> set (MultiClusterController_GetClusterNames w0) \<and>
   subseq (checkStorageClassOfTenantCluster d0 w0 ''T1'') (sequential d0 w0) \<and>
   ''T1'' \<noteq> ''T3'' \<and>
   checkStorageClassOfTenantCluster d0
     (w0\<lparr>MultiClusterController_List := (MultiClusterController_List w0)(''T3'' := Inr [])\<rparr>)
     ''T1'' = checkStorageClassOfTenantCluster d0 w0 ''T1'' \<and>
   MultiClusterController_GetClusterNames w0 \<noteq> [] \<and>
   numMissMatchedStorageClasses (PatrollerDo d0 (sequential d0 w0) w0) =
     of_nat (\<Sum>c'\<leftarrow>filter (\<lambda>c'. c' \<noteq> ''T3'') (MultiClusterController_GetClusterNames w0).
        count_list (checkStorageClassOfTenantCluster d0 w0 c') (AtomicAddUint64 1))"
proof -
  have c: "''T1'' \<in> set (MultiClusterController_GetClusterNames w0)"
    by (simp add: w0_facts)
  have n: "''T1'' \<noteq> ''T3''" by simp
  note t = C6_tenant_list_failure [OF w0_facts(3), of d0]
  note t1 = t [THEN conjunct1]
  note t2 = t [THEN conjunct2, THEN conjunct1, rule_format, OF sequential_schedule c]
  note t3 = t [THEN conjunct2, THEN conjunct2, THEN conjunct1, rule_format, OF n, of "Inr []"]
  note t4 = t [THEN conjunct2, THEN conjunct2, THEN conjunct2, rule_format,
      OF sequential_schedule w0_clusters]
  show ?thesis
    by (intro conjI w0_facts(3) t1 t2 t3 t4 sequential_schedule c n w0_clusters)
qed

section \<open>Starting the patroller\<close>

text \<open>
  C7. \<open>StartPatrol\<close> returns an error exactly when the cache-sync gate fails; then the
  patroller is not started and nothing else changes. When the gate succeeds, the patroller
  is started once and no error is returned.
\<close>

theorem C7_StartPatrol_gate:
  "(fst (StartPatrol w) \<noteq> None) = (\<not> WaitForCacheSync w) \<and>
   (\<not> WaitForCacheSync w \<longrightarrow> snd (StartPatrol w) = w) \<and>
   (WaitForCacheSync w \<longrightarrow>
      StartPatrol w = (None, w\<lparr>PatrollerStarts := Suc (PatrollerStarts w)\<rparr>))"
  by (simp add: StartPatrol_def)

theorem C7_StartPatrol_gate_witness:
  "WaitForCacheSync w0 \<and> StartPatrol w0 = (None, w0\<lparr>PatrollerStarts := 1\<rparr>) \<and>
   \<not> WaitForCacheSync w_nosync \<and> fst (StartPatrol w_nosync) \<noteq> None \<and>
   PatrollerStarts (snd (StartPatrol w_nosync)) = 0"
proof -
  have a: "WaitForCacheSync w0" "PatrollerStarts w0 = 0" by (simp_all add: w0_def)
  have b: "\<not> WaitForCacheSync w_nosync" "PatrollerStarts w_nosync = 0"
    by (simp_all add: w_nosync_def w0_def)
  show ?thesis
    using C7_StartPatrol_gate [of w0] C7_StartPatrol_gate [of w_nosync] a b by simp
qed

section \<open>What the tenant scanner changes\<close>




section \<open>The drift count under concurrency\<close>

text \<open>
  C9. Each \<^verbatim>\<open>atomic.AddUint64\<close> is one step of its goroutine. Under every schedule of
  the goroutines, the counter read once all of them are done (after \<^verbatim>\<open>wg.Wait()\<close>), and
  the counter at the end of the pass, equal the total number of increments made by all
  scanners, in \<^verbatim>\<open>uint64\<close> arithmetic; the value is that number itself when it is below
  \<open>2 ^ 64\<close>.
\<close>

theorem C9_no_lost_increment:
  assumes sched: "sched \<in> schedules d w"
    and ne: "MultiClusterController_GetClusterNames w \<noteq> []"
  shows "numMissMatchedStorageClasses (run sched (w\<lparr>numMissMatchedStorageClasses := 0\<rparr>)) =
           of_nat (\<Sum>t\<leftarrow>goroutines d w. count_list t (AtomicAddUint64 1)) \<and>
         numMissMatchedStorageClasses (PatrollerDo d sched w) =
           of_nat (\<Sum>t\<leftarrow>goroutines d w. count_list t (AtomicAddUint64 1)) \<and>
         ((\<Sum>t\<leftarrow>goroutines d w. count_list t (AtomicAddUint64 1)) < 2 ^ 64 \<longrightarrow>
          unat (numMissMatchedStorageClasses (PatrollerDo d sched w)) =
            (\<Sum>t\<leftarrow>goroutines d w. count_list t (AtomicAddUint64 1)))"
  using added_schedule [OF sched] PatrollerDo_numMiss [OF ne, of d sched]
  by (simp add: run_outputs unat_of_nat)

theorem C9_no_lost_increment_witness:
  "sequential d0 w0 \<in> schedules d0 w0 \<and>
   MultiClusterController_GetClusterNames w0 \<noteq> [] \<and>
   (\<Sum>t\<leftarrow>goroutines d0 w0. count_list t (AtomicAddUint64 1)) = 2 \<and>
   (2::nat) < 2 ^ 64 \<and>
   numMissMatchedStorageClasses (PatrollerDo d0 (sequential d0 w0) w0) = 2 \<and>
   unat (numMissMatchedStorageClasses (PatrollerDo d0 (sequential d0 w0) w0)) = 2"
  using C9_no_lost_increment [OF sequential_schedule w0_clusters, of d0]
    sequential_schedule [of d0 w0] w0_clusters
  by (simp add: goroutines_w0)

section \<open>One enqueue per key\<close>

text \<open>
  C10. Within one pass, under every schedule, no key is enqueued more than once: the
  scanner enqueues \<open>c/n\<close> only for an object named \<open>n\<close> in the list of tenant \<open>c\<close>, the
  sweep only when the probe of \<open>c\<close> for \<open>n\<close> answers not-found, and over coherent caches
  the two exclude each other. The caches are well formed and coherent: cluster names are
  distinct and contain no slash, names are distinct within each tenant list and within
  the super master list, a lookup in the super master cache returns the object of that
  name, and an object listed for a tenant is not reported not-found by the probe of that
  tenant.
\<close>

theorem C10_one_enqueue_per_key:
  assumes sched: "sched \<in> schedules d w"
    and dc: "distinct (MultiClusterController_GetClusterNames w)"
    and slash: "\<forall>c\<in>set (MultiClusterController_GetClusterNames w). CHR ''/'' \<notin> set c"
    and dl: "\<forall>c items. MultiClusterController_List w c = Inr items \<longrightarrow>
               distinct (map Name items)"
    and dp: "\<forall>ps. storageclassLister_List w = Inr ps \<longrightarrow> distinct (map Name ps)"
    and lc: "\<forall>n p. storageclassLister_Get w n = Inr p \<longrightarrow> Name p = n"
    and tc: "\<forall>c items v. MultiClusterController_List w c = Inr items \<longrightarrow> v \<in> set items \<longrightarrow>
               MultiClusterController_Get w c (Name v) \<noteq> Some StatusNotFound"
  shows "count_list (drop (length (UpwardQueue w)) (UpwardQueue (PatrollerDo d sched w))) k \<le> 1"
proof (cases "MultiClusterController_GetClusterNames w = []")
  case True
  then show ?thesis by (simp add: PatrollerDo_empty)
next
  case ne: False
  let ?cs = "MultiClusterController_GetClusterNames w"
  define S where "S = count_list sched (AddToQueue k)"
  define W where "W = (case storageclassLister_List w of
              Inl err \<Rightarrow> 0
            | Inr ps \<Rightarrow> count_list (sweep d w ?cs ps) (AddToQueue k))"
  have total: "count_list (drop (length (UpwardQueue w)) (UpwardQueue (PatrollerDo d sched w))) k
                = S + W"
    by (simp add: S_def W_def PatrollerDo_UpwardQueue [OF ne] count_queued split: sum.split)
  have "S + W \<le> 1"
  proof (cases "\<exists>c\<in>set ?cs. \<exists>n. k = c @ ''/'' @ n")
    case False
    have "S = 0"
    proof (rule ccontr)
      assume "S \<noteq> 0"
      then obtain c where "c \<in> set ?cs"
        "0 < count_list (checkStorageClassOfTenantCluster d w c) (AddToQueue k)"
        by (auto simp: S_def count_schedule [OF sched])
      with check_key_form False show False by blast
    qed
    moreover have "W = 0"
    proof (rule ccontr)
      assume "W \<noteq> 0"
      then obtain ps where "0 < count_list (sweep d w ?cs ps) (AddToQueue k)"
        by (auto simp: W_def split: sum.splits)
      with sweep_key_form False show False by blast
    qed
    ultimately show ?thesis by simp
  next
    case True
    then obtain c n where c: "c \<in> set ?cs" and k: "k = c @ ''/'' @ n" by blast
    have S: "S = count_list (checkStorageClassOfTenantCluster d w c) (AddToQueue (c @ ''/'' @ n))"
      unfolding S_def k by (rule count_schedule_key [OF sched c dc slash])
    have Wps: "W = (\<Sum>p\<leftarrow>ps. if Name p = n then
          (if publicStorageClass d p \<and> MultiClusterController_Get w c n = Some StatusNotFound
           then 1 else 0) else 0)"
      if "storageclassLister_List w = Inr ps" for ps
      using that count_sweep_AddToQueue [OF c dc slash, of d w ps n]
      by (simp add: W_def k)
    have S1: "S \<le> 1"
    proof (cases "MultiClusterController_List w c")
      case (Inl err)
      then show ?thesis unfolding S by (simp add: check_listfail)
    next
      case (Inr items)
      with dl have "distinct (map Name items)" by blast
      then show ?thesis
        unfolding S count_check_own_key [OF lc Inr]
        by (rule sum_list_distinct_le1) (simp split: sum.split)
    qed
    have W1: "W \<le> 1"
    proof (cases "storageclassLister_List w")
      case (Inl err)
      then show ?thesis by (simp add: W_def)
    next
      case (Inr ps)
      with dp have "distinct (map Name ps)" by blast
      then show ?thesis
        unfolding Wps [OF Inr] by (rule sum_list_distinct_le1) simp
    qed
    have excl: "W = 0" if "S \<noteq> 0"
    proof -
      from that obtain items where items: "MultiClusterController_List w c = Inr items"
        unfolding S by (cases "MultiClusterController_List w c") (simp_all add: check_listfail)
      have "n \<in> Name ` set items"
      proof (rule ccontr)
        assume "n \<notin> Name ` set items"
        from sum_list_distinct_none [OF this,
            of "\<lambda>v. case storageclassLister_Get w n of
                   Inl err \<Rightarrow> 0
                 | Inr p \<Rightarrow> if CheckStorageClassEquality d p v \<noteq> None \<and>
                               publicStorageClass d p then 1 else 0"] that
        show False
          unfolding S count_check_own_key [OF lc items] by blast
      qed
      with tc items have nf: "MultiClusterController_Get w c n \<noteq> Some StatusNotFound"
        by auto
      show ?thesis
      proof (cases "storageclassLister_List w")
        case (Inl err)
        then show ?thesis by (simp add: W_def)
      next
        case (Inr ps)
        have "W = (\<Sum>p\<leftarrow>ps. 0)"
          unfolding Wps [OF Inr] by (rule sum_list_cong_set) (use nf in simp)
        then show ?thesis by simp
      qed
    qed
    show ?thesis
    proof (cases "S = 0")
      case True
      with W1 show ?thesis by simp
    next
      case False
      from excl [OF False] S1 show ?thesis by simp
    qed
  qed
  with total show ?thesis by simp
qed

theorem C10_one_enqueue_per_key_witness:
  "sequential d0 w0 \<in> schedules d0 w0 \<and>
   distinct (MultiClusterController_GetClusterNames w0) \<and>
   UpwardQueue (PatrollerDo d0 (sequential d0 w0) w0) =
     [''T1/D'', ''T2/A'', ''T2/D'', ''T1/E'', ''T2/E''] \<and>
   count_list (drop (length (UpwardQueue w0))
     (UpwardQueue (PatrollerDo d0 (sequential d0 w0) w0))) ''T1/D'' \<le> 1"
  by (intro conjI sequential_schedule w0_wellformed(1) pass_w0_queue
      C10_one_enqueue_per_key [OF sequential_schedule w0_wellformed])

end
